theory Spec2Isabelle
  imports Complex_Main
begin

section \<open>Common data model\<close>

text \<open>
  The NLP engine is Python. Its values are embedded as follows.
  \<^item> A Python \<open>str\<close> is a \<^typ>\<open>string\<close>; every element stands for one character of
    the Python string, so \<open>len(text)\<close> is \<^term>\<open>length text\<close> and the slice
    \<open>text[i:i + 1]\<close> is \<^term>\<open>take 1 (drop i text)\<close>.
  \<^item> A Python \<open>float\<close> (confidences, latencies) is a \<^typ>\<open>rat\<close>: arithmetic is exact,
    rounding is not modelled.
  \<^item> A raised exception is the left injection of a sum; the exception classes the
    engine raises itself are \<open>ValueError\<close> and \<open>RuntimeError\<close>, any other class a
    collaborator may raise is \<open>OtherError\<close>.
  \<^item> Logging has no effect on any result and is left out.
\<close>

datatype error = ValueError string | RuntimeError string | OtherError string

text \<open>\<open>str(e)\<close> of an exception built from one message argument.\<close>

fun str_error :: "error \<Rightarrow> string" where
  "str_error (ValueError m) = m"
| "str_error (RuntimeError m) = m"
| "str_error (OtherError m) = m"

text \<open>\<open>str(n)\<close> of a non-negative integer, as used in formatted messages.\<close>

definition digit_char :: "nat \<Rightarrow> char" where
  "digit_char d = ''0123456789'' ! d"

fun str_nat :: "nat \<Rightarrow> string" where
  "str_nat n = (if n < 10 then [digit_char n] else str_nat (n div 10) @ [digit_char (n mod 10)])"

declare str_nat.simps [simp del]

text \<open>
  The dictionaries exchanged between the components. A key that the reader accesses
  with \<open>d.get(key, default)\<close> or \<open>d[key]\<close> is an optional field: \<open>None\<close> is the
  absent key.
\<close>

record intent_result =
  ir_intent :: "string option"
  ir_confidence :: "rat option"
  ir_status :: "string option"

record entity =
  e_type :: "string option"
  e_confidence :: "rat option"
  e_position :: nat
  e_text :: string

section \<open>Language processor: configuration, metrics, results\<close>

text \<open>
  The fields of \<open>LanguageProcessor\<close> read after construction:
  \<open>self._config['max_sequence_length']\<close>, \<open>self._confidence_threshold\<close> and
  \<open>self._batch_size_limit\<close>.
\<close>

record processor_config =
  max_sequence_length :: nat
  confidence_threshold :: rat
  batch_size_limit :: nat

text \<open>
  \<open>self._performance_metrics\<close>. The three counters start at 0 and are only ever
  incremented, hence natural numbers.
\<close>

record performance_metrics =
  total_requests :: nat
  successful_requests :: nat
  failed_requests :: nat
  average_latency :: rat
  last_error :: "string option"

definition init_metrics :: performance_metrics where
  "init_metrics =
     \<lparr>total_requests = 0, successful_requests = 0, failed_requests = 0,
      average_latency = 0, last_error = None\<rparr>"

text \<open>
  \<open>_update_metrics(success, processing_time, error)\<close>: the counters first, then the
  running average over the incremented total.
\<close>

definition update_metrics ::
  "bool \<Rightarrow> rat \<Rightarrow> string option \<Rightarrow> performance_metrics \<Rightarrow> performance_metrics" where
  "update_metrics success processing_time err m =
     (let m1 = m\<lparr>total_requests := total_requests m + 1\<rparr>;
          m2 = (if success then m1\<lparr>successful_requests := successful_requests m1 + 1\<rparr>
                else m1\<lparr>failed_requests := failed_requests m1 + 1, last_error := err\<rparr>);
          current_avg = average_latency m2;
          total = total_requests m2
      in m2\<lparr>average_latency :=
              (current_avg * of_nat (total - 1) + processing_time) / of_nat total\<rparr>)"

record validation_details =
  intent_valid :: bool
  entities_valid :: bool
  missing_entities :: "string list"

record validated_result =
  intent_name :: string
  intent_confidence :: rat
  entities :: "entity list"
  overall_confidence :: rat
  details :: validation_details

text \<open>The \<open>required_entities\<close> table of \<open>_validate_results\<close>, in source order.\<close>

definition required_entities :: "(string \<times> string list) list" where
  "required_entities =
     [(''create_agent'', [''AGENT_NAME'', ''INTEGRATION_TYPE'']),
      (''modify_agent'', [''AGENT_NAME'']),
      (''delete_agent'', [''AGENT_NAME'']),
      (''configure_integration'', [''INTEGRATION_TYPE''])]"

text \<open>\<open>e.get('confidence', 0)\<close> and \<open>intent_result.get(...)\<close>.\<close>

definition get_confidence :: "entity \<Rightarrow> rat" where
  "get_confidence e = (case e_confidence e of None \<Rightarrow> 0 | Some c \<Rightarrow> c)"

text \<open>
  \<open>sum(entity_confidences) / len(entity_confidences) if entity_confidences else 0\<close>.
\<close>

definition avg_entity_confidence :: "entity list \<Rightarrow> rat" where
  "avg_entity_confidence es =
     (let entity_confidences = map get_confidence es
      in if entity_confidences \<noteq> []
         then sum_list entity_confidences / of_nat (length entity_confidences)
         else 0)"

text \<open>
  \<open>found_types = {e['type'] for e in entities_result}\<close>: subscripting an entity without
  the key raises \<open>KeyError('type')\<close>, whose \<open>str\<close> is the quoted key.
\<close>

fun found_types :: "entity list \<Rightarrow> string + string list" where
  "found_types [] = Inr []"
| "found_types (e # es) =
     (case e_type e of
        None \<Rightarrow> Inl ([CHR 0x27] @ ''type'' @ [CHR 0x27])
      | Some t \<Rightarrow> (case found_types es of Inl k \<Rightarrow> Inl k | Inr ts \<Rightarrow> Inr (t # ts)))"

text \<open>
  \<open>_validate_results\<close>. The set difference \<open>set(required) - found_types\<close> is turned
  into a list by \<open>list(...)\<close>, whose order Python leaves open; the model lists the
  missing types in table order, and the theorems below speak about the list's
  elements only where it can have more than one. Every exception inside the
  \<open>try\<close> is re-raised as \<open>ValueError("Result validation failed: ...")\<close>.
\<close>

definition validate_results ::
  "processor_config \<Rightarrow> intent_result \<Rightarrow> entity list \<Rightarrow> error + validated_result" where
  "validate_results cfg ir es =
     (let intent_conf = (case ir_confidence ir of None \<Rightarrow> 0 | Some c \<Rightarrow> c);
          avg = avg_entity_confidence es;
          intent = (case ir_intent ir of None \<Rightarrow> ''unknown'' | Some i \<Rightarrow> i);
          missing =
            (case map_of required_entities intent of
               None \<Rightarrow> Inr []
             | Some required \<Rightarrow>
                 (case found_types es of
                    Inl k \<Rightarrow> Inl k
                  | Inr found \<Rightarrow> Inr (filter (\<lambda>t. t \<notin> set found) required)))
      in case missing of
           Inl k \<Rightarrow> Inl (ValueError (''Result validation failed: '' @ k))
         | Inr missing_types \<Rightarrow>
             Inr \<lparr>intent_name = intent,
                  intent_confidence = intent_conf,
                  entities = es,
                  overall_confidence = (intent_conf + avg) / 2,
                  details =
                    \<lparr>intent_valid = (intent_conf \<ge> confidence_threshold cfg),
                     entities_valid = (avg \<ge> confidence_threshold cfg),
                     missing_entities = missing_types\<rparr>\<rparr>)"

section \<open>Language processor: single requests\<close>

text \<open>
  The orchestrator owns three collaborators (preprocessor, intent classifier, entity
  extractor). Their calls are parameters of the model: each takes the text and the
  collaborators' joint state \<open>'c\<close> (caches, model handles, counters) and returns the
  call's outcome with the new state. Nothing else is assumed about them.
\<close>

record 'c collaborators =
  call_transform :: "string \<Rightarrow> 'c \<Rightarrow> (error + unit) \<times> 'c"
  call_classify_intent :: "string \<Rightarrow> 'c \<Rightarrow> (error + intent_result) \<times> 'c"
  call_extract_entities :: "string \<Rightarrow> 'c \<Rightarrow> (error + entity list) \<times> 'c"

record 'c world =
  metrics :: performance_metrics
  collab :: 'c

text \<open>The dictionary returned by \<open>process_text\<close>: three tags and the validated result.\<close>

record processed_result =
  request_id :: string
  processing_time :: rat
  status :: string
  validated :: validated_result

text \<open>
  The \<open>except\<close> branch of \<open>process_text\<close>: the failure is counted with a processing
  time of 0 and the exception is re-raised unchanged.
\<close>

definition fail_request :: "error \<Rightarrow> 'c world \<Rightarrow> (error + processed_result) \<times> 'c world" where
  "fail_request e w =
     (Inl e, w\<lparr>metrics := update_metrics False 0 (Some (str_error e)) (metrics w)\<rparr>)"

text \<open>
  \<open>process_text\<close>. The clock is a parameter: \<open>rid\<close> is the request id derived from the
  start time and \<open>elapsed\<close> the seconds measured at the end. The two inference calls
  run in worker threads and \<open>asyncio.gather(..., return_exceptions=True)\<close> waits for
  both and returns their outcomes in argument order; the loop after it re-raises the
  first exception in that order. The model runs the two calls one after the other on
  the collaborators' joint state. The semaphore only delays the dispatch.
\<close>

definition process_text ::
  "processor_config \<Rightarrow> 'c collaborators \<Rightarrow> string \<Rightarrow> rat \<Rightarrow> string \<Rightarrow> 'c world
     \<Rightarrow> (error + processed_result) \<times> 'c world" where
  "process_text cfg coll rid elapsed text w =
     (if text = [] then fail_request (ValueError ''Invalid input text'') w
      else if length text > max_sequence_length cfg
      then fail_request (ValueError ''Input text exceeds maximum length'') w
      else
        (case call_transform coll text (collab w) of
           (Inl e, c1) \<Rightarrow> fail_request e (w\<lparr>collab := c1\<rparr>)
         | (Inr processed_text, c1) \<Rightarrow>
             (case call_classify_intent coll text c1 of (intent_outcome, c2) \<Rightarrow>
              case call_extract_entities coll text c2 of (entities_outcome, c3) \<Rightarrow>
                (case intent_outcome of
                   Inl e \<Rightarrow> fail_request e (w\<lparr>collab := c3\<rparr>)
                 | Inr intent_result \<Rightarrow>
                     (case entities_outcome of
                        Inl e \<Rightarrow> fail_request e (w\<lparr>collab := c3\<rparr>)
                      | Inr entities_result \<Rightarrow>
                          (case validate_results cfg intent_result entities_result of
                             Inl e \<Rightarrow> fail_request e (w\<lparr>collab := c3\<rparr>)
                           | Inr validated_result \<Rightarrow>
                               (Inr \<lparr>request_id = rid,
                                     processing_time = elapsed,
                                     status = ''success'',
                                     validated = validated_result\<rparr>,
                                \<lparr>metrics = update_metrics True elapsed None (metrics w),
                                 collab = c3\<rparr>)))))))"

section \<open>Language processor: batches\<close>

record error_record =
  er_status :: string
  er_error :: string
  er_original_text :: string

datatype batch_entry = Processed processed_result | Failed error_record

text \<open>
  The event loop completes the tasks of a batch in some order. That order is a
  parameter: \<open>sched\<close> lists task indices by priority; an index out of range or
  repeated is ignored, and the tasks it does not name complete afterwards in
  creation order. So every \<open>sched\<close> denotes a complete run, and every permutation of
  the task indices denotes itself.
\<close>

definition completion_order :: "nat \<Rightarrow> nat list \<Rightarrow> nat list" where
  "completion_order n sched =
     remdups (filter (\<lambda>i. i < n) sched) @ filter (\<lambda>i. i \<notin> set sched) [0..<n]"

text \<open>
  Running the tasks: task \<open>i\<close> is \<open>process_text(texts[i])\<close> with its own clock
  readings, and its outcome is stored in slot \<open>i\<close> of the gathered results, whenever it
  completes. Each task is run as one step.
\<close>

fun run_tasks ::
  "processor_config \<Rightarrow> 'c collaborators \<Rightarrow> (nat \<Rightarrow> string \<times> rat) \<Rightarrow> string list \<Rightarrow> nat list
     \<Rightarrow> (error + processed_result) option list \<Rightarrow> 'c world
     \<Rightarrow> (error + processed_result) option list \<times> 'c world" where
  "run_tasks cfg coll clock texts [] slots w = (slots, w)"
| "run_tasks cfg coll clock texts (i # order) slots w =
     (if i < length texts
      then (case process_text cfg coll (fst (clock i)) (snd (clock i)) (texts ! i) w of
              (r, w') \<Rightarrow> run_tasks cfg coll clock texts order (slots[i := Some r]) w')
      else run_tasks cfg coll clock texts order slots w)"

text \<open>The loop over \<open>enumerate(results)\<close>: an exception becomes an error record.\<close>

definition batch_entry_of :: "string \<Rightarrow> error + processed_result \<Rightarrow> batch_entry" where
  "batch_entry_of original r =
     (case r of
        Inl e \<Rightarrow> Failed \<lparr>er_status = ''error'', er_error = str_error e,
                         er_original_text = original\<rparr>
      | Inr res \<Rightarrow> Processed res)"

text \<open>
  \<open>process_batch\<close>. \<open>asyncio.gather\<close> returns once every task has completed; a slot
  left empty would mean that it never returns, which is the result \<open>None\<close>. The
  size check raises \<open>ValueError\<close> inside the \<open>try\<close>, and the \<open>except\<close> branch of
  \<open>process_batch\<close> re-raises every exception as \<open>RuntimeError\<close>.
\<close>

definition process_batch ::
  "processor_config \<Rightarrow> 'c collaborators \<Rightarrow> (nat \<Rightarrow> string \<times> rat) \<Rightarrow> nat list \<Rightarrow> string list
     \<Rightarrow> 'c world \<Rightarrow> (error + batch_entry list) option \<times> 'c world" where
  "process_batch cfg coll clock sched texts w =
     (if texts = [] \<or> length texts > batch_size_limit cfg
      then (Some (Inl (RuntimeError (''Batch processing failed: '' @
                str_error (ValueError (''Invalid batch size. Limit: '' @
                  str_nat (batch_size_limit cfg)))))), w)
      else
        (case run_tasks cfg coll clock texts (completion_order (length texts) sched)
                (replicate (length texts) None) w of
           (slots, w') \<Rightarrow>
             (case those slots of
                None \<Rightarrow> (None, w')
              | Some results \<Rightarrow>
                  (Some (Inr (map (\<lambda>(original, r). batch_entry_of original r)
                                (zip texts results))), w'))))"

section \<open>Text preprocessor interface\<close>

text \<open>
  \<open>TextPreprocessor.tokenize_text\<close> (memo table, cleaning and the external tokenizer)
  is a parameter of the models below: a function of the text that returns the row of
  token ids and the row of the attention mask, or raises.
\<close>

type_synonym token_row = "int list \<times> int list"

type_synonym tokenizer = "string \<Rightarrow> error + token_row"

record encoding =
  input_ids :: "int list"
  attention_mask :: "int list"
  original_length :: nat
  processed_length :: nat

text \<open>\<open>TextPreprocessor.transform\<close>: input check, tokenization, metadata.\<close>

definition transform :: "tokenizer \<Rightarrow> string \<Rightarrow> error + encoding" where
  "transform tokenize_text text =
     (if text = [] then Inl (ValueError ''Invalid input text'')
      else (case tokenize_text text of
              Inl e \<Rightarrow> Inl e
            | Inr (ids, att) \<Rightarrow>
                Inr \<lparr>input_ids = ids, attention_mask = att,
                     original_length = length text, processed_length = length ids\<rparr>))"

text \<open>The list comprehension \<open>[self.transform(text) for text in batch]\<close>.\<close>

fun transform_all :: "tokenizer \<Rightarrow> string list \<Rightarrow> error + encoding list" where
  "transform_all tokenize_text [] = Inr []"
| "transform_all tokenize_text (t # ts) =
     (case transform tokenize_text t of
        Inl e \<Rightarrow> Inl e
      | Inr enc \<Rightarrow>
          (case transform_all tokenize_text ts of
             Inl e \<Rightarrow> Inl e
           | Inr encs \<Rightarrow> Inr (enc # encs)))"

text \<open>\<open>np.vstack\<close> of one-row arrays raises unless all rows have the same width.\<close>

definition vstack :: "int list list \<Rightarrow> error + int list list" where
  "vstack rows =
     (if \<forall>r \<in> set rows. length r = length (hd rows) then Inr rows
      else Inl (ValueError ''all the input array dimensions must match exactly''))"

text \<open>
  \<open>TextPreprocessor.batch_transform\<close>: its loop over sub-batches of 32 transforms the
  texts one by one, in order. The result is the list of stacked rows.
\<close>

definition batch_transform :: "tokenizer \<Rightarrow> string list \<Rightarrow> error + token_row list" where
  "batch_transform tokenize_text texts =
     (if texts = [] then Inl (ValueError ''Invalid input batch'')
      else (case transform_all tokenize_text texts of
              Inl e \<Rightarrow> Inl e
            | Inr results \<Rightarrow>
                (case vstack (map input_ids results) of
                   Inl e \<Rightarrow> Inl e
                 | Inr ids \<Rightarrow>
                     (case vstack (map attention_mask results) of
                        Inl e \<Rightarrow> Inl e
                      | Inr masks \<Rightarrow> Inr (zip ids masks)))))"

text \<open>
  The largest element of a probability row with the index of its first occurrence
  (\<open>torch.max(probs, dim=-1)\<close> on one row; \<open>np.max\<close> with \<open>np.argmax\<close>). An empty
  row has no maximum: the library call raises.
\<close>

fun first_index :: "rat \<Rightarrow> rat list \<Rightarrow> nat" where
  "first_index v [] = 0"
| "first_index v (p # ps) = (if p = v then 0 else Suc (first_index v ps))"

fun top_class :: "rat list \<Rightarrow> (rat \<times> nat) option" where
  "top_class [] = None"
| "top_class (p # ps) = (let m = fold max ps p in Some (m, first_index m (p # ps)))"

section \<open>Intent classifier\<close>

definition INTENT_LABELS :: "string list" where
  "INTENT_LABELS =
     [''create_agent'', ''modify_agent'', ''delete_agent'',
      ''query_status'', ''configure_integration'', ''help'']"

definition BATCH_SIZE :: nat where
  "BATCH_SIZE = 32"

text \<open>
  What the classifier is built from: Python's \<open>hash\<close> on strings, the preprocessor,
  the model followed by softmax (one probability row per input row, or an exception)
  and \<open>self.confidence_threshold\<close>.
\<close>

record classifier =
  hash :: "string \<Rightarrow> int"
  tokenize_text :: tokenizer
  intent_model :: "token_row list \<Rightarrow> error + rat list list"
  threshold :: rat

text \<open>
  \<open>self._cache\<close>, keyed by the hash of the text. Expiry and eviction remove entries
  between calls; the theorems hold for every content of the cache.
\<close>

type_synonym intent_cache = "int \<Rightarrow> intent_result option"

text \<open>The threshold check of \<open>classify_intent\<close>.\<close>

definition gate_single :: "classifier \<Rightarrow> rat \<Rightarrow> string \<Rightarrow> intent_result" where
  "gate_single cl conf predicted_intent =
     (if conf < threshold cl
      then \<lparr>ir_intent = Some ''unknown'', ir_confidence = Some conf,
            ir_status = Some ''low_confidence''\<rparr>
      else \<lparr>ir_intent = Some predicted_intent, ir_confidence = Some conf,
            ir_status = Some ''success''\<rparr>)"

text \<open>
  The body of the \<open>try\<close> of \<open>classify_intent\<close> up to the threshold check. The input
  has one row; \<open>.item()\<close> raises unless the model returned exactly one row, and
  \<open>INTENT_LABELS[...]\<close> raises on an index out of range.
\<close>

definition infer_intent :: "classifier \<Rightarrow> string \<Rightarrow> error + intent_result" where
  "infer_intent cl text =
     (case transform (tokenize_text cl) text of
        Inl e \<Rightarrow> Inl e
      | Inr processed \<Rightarrow>
          (case intent_model cl [(input_ids processed, attention_mask processed)] of
             Inl e \<Rightarrow> Inl e
           | Inr [probs] \<Rightarrow>
               (case top_class probs of
                  None \<Rightarrow> Inl (OtherError ''max of an empty dimension'')
                | Some (conf, pred_idx) \<Rightarrow>
                    if pred_idx < length INTENT_LABELS
                    then Inr (gate_single cl conf (INTENT_LABELS ! pred_idx))
                    else Inl (OtherError ''list index out of range''))
           | Inr _ \<Rightarrow> Inl (OtherError ''only one element tensors can be converted'')))"

text \<open>
  \<open>classify_intent\<close>: a cached result is returned as it is; otherwise the result of
  the inference is stored and returned, and every exception of the inference is
  re-raised as \<open>RuntimeError\<close>.
\<close>

definition classify_intent ::
  "classifier \<Rightarrow> string \<Rightarrow> intent_cache \<Rightarrow> (error + intent_result) \<times> intent_cache" where
  "classify_intent cl text cache =
     (let cache_key = hash cl text
      in case cache cache_key of
           Some cached \<Rightarrow> (Inr cached, cache)
         | None \<Rightarrow>
             (case infer_intent cl text of
                Inl e \<Rightarrow> (Inl (RuntimeError ''Intent classification failed''), cache)
              | Inr result \<Rightarrow> (Inr result, cache(cache_key \<mapsto> result))))"

text \<open>The result built inside the loop of \<open>classify_batch\<close>.\<close>

definition gate_batch :: "classifier \<Rightarrow> rat \<Rightarrow> string \<Rightarrow> intent_result" where
  "gate_batch cl conf predicted_intent =
     \<lparr>ir_intent = Some (if conf \<ge> threshold cl then predicted_intent else ''unknown''),
      ir_confidence = Some conf,
      ir_status = Some (if conf \<ge> threshold cl then ''success'' else ''low_confidence'')\<rparr>"

text \<open>
  The loop over \<open>zip(confidences, pred_indices, batch_texts)\<close>: each result is stored
  in the cache under the hash of its text; an index out of range stops the loop with
  the entries stored so far.
\<close>

fun store_results ::
  "classifier \<Rightarrow> ((rat \<times> nat) \<times> string) list \<Rightarrow> intent_cache
     \<Rightarrow> (error + intent_result list) \<times> intent_cache" where
  "store_results cl [] cache = (Inr [], cache)"
| "store_results cl (((conf, pred_idx), text) # rest) cache =
     (if pred_idx < length INTENT_LABELS
      then (let result = gate_batch cl conf (INTENT_LABELS ! pred_idx)
            in case store_results cl rest (cache(hash cl text \<mapsto> result)) of
                 (Inl e, cache') \<Rightarrow> (Inl e, cache')
               | (Inr batch_results, cache') \<Rightarrow> (Inr (result # batch_results), cache'))
      else (Inl (OtherError ''list index out of range''), cache))"

text \<open>
  One sub-batch of \<open>classify_batch\<close>: preprocessing, one model call for all rows, the
  row maxima, then the loop above.
\<close>

definition classify_chunk ::
  "classifier \<Rightarrow> string list \<Rightarrow> intent_cache \<Rightarrow> (error + intent_result list) \<times> intent_cache" where
  "classify_chunk cl batch_texts cache =
     (case batch_transform (tokenize_text cl) batch_texts of
        Inl e \<Rightarrow> (Inl e, cache)
      | Inr processed_batch \<Rightarrow>
          (case intent_model cl processed_batch of
             Inl e \<Rightarrow> (Inl e, cache)
           | Inr probs \<Rightarrow>
               (case those (map top_class probs) of
                  None \<Rightarrow> (Inl (OtherError ''max of an empty dimension''), cache)
                | Some tops \<Rightarrow> store_results cl (zip tops batch_texts) cache)))"

text \<open>The loop \<open>for i in range(0, len(texts), BATCH_SIZE)\<close>.\<close>

function classify_chunks ::
  "classifier \<Rightarrow> string list \<Rightarrow> intent_cache \<Rightarrow> (error + intent_result list) \<times> intent_cache" where
  "classify_chunks cl texts cache =
     (if texts = [] then (Inr [], cache)
      else (case classify_chunk cl (take BATCH_SIZE texts) cache of
              (Inl e, cache1) \<Rightarrow> (Inl e, cache1)
            | (Inr batch_results, cache1) \<Rightarrow>
                (case classify_chunks cl (drop BATCH_SIZE texts) cache1 of
                   (Inl e, cache2) \<Rightarrow> (Inl e, cache2)
                 | (Inr results, cache2) \<Rightarrow> (Inr (batch_results @ results), cache2))))"
  by pat_completeness auto
termination
  by (relation "measure (\<lambda>(cl, texts, cache). length texts)") (auto simp: BATCH_SIZE_def)

declare classify_chunks.simps [simp del]

text \<open>
  \<open>classify_batch\<close>: the cache is written, never read; an exception anywhere fails
  the whole batch with \<open>RuntimeError\<close>.
\<close>

definition classify_batch ::
  "classifier \<Rightarrow> string list \<Rightarrow> intent_cache \<Rightarrow> (error + intent_result list) \<times> intent_cache" where
  "classify_batch cl texts cache =
     (if texts = [] then (Inr [], cache)
      else (case classify_chunks cl texts cache of
              (Inl e, cache') \<Rightarrow> (Inl (RuntimeError ''Batch classification failed''), cache')
            | (Inr results, cache') \<Rightarrow> (Inr results, cache')))"

section \<open>Entity extractor\<close>

text \<open>The keys of \<open>ENTITY_TYPES\<close> in insertion order: \<open>list(ENTITY_TYPES.keys())\<close>.\<close>

definition ENTITY_TYPES :: "string list" where
  "ENTITY_TYPES =
     [''AGENT_NAME'', ''INTEGRATION_TYPE'', ''PARAMETER'', ''SCHEDULE'', ''ACTION'',
      ''CONDITION'']"

text \<open>
  What the extractor is built from: the preprocessor, the token classification model
  followed by softmax (for every input row, one probability row per token position),
  \<open>self._confidence_threshold\<close> and \<open>self._batch_size\<close>.
\<close>

record extractor =
  x_tokenize_text :: tokenizer
  entity_model :: "token_row list \<Rightarrow> error + rat list list list"
  x_threshold :: rat
  x_batch_size :: nat

text \<open>The counters of \<open>self._performance_metrics\<close> that \<open>extract_entities\<close> updates.\<close>

record extractor_metrics =
  processed_texts :: nat
  successful_extractions :: nat

text \<open>The entity dictionary built for token position \<open>idx\<close> of \<open>text\<close>.\<close>

definition make_entity :: "string \<Rightarrow> nat \<Rightarrow> rat \<Rightarrow> nat \<Rightarrow> entity" where
  "make_entity text idx max_prob entity_type =
     \<lparr>e_type = Some (ENTITY_TYPES ! entity_type),
      e_confidence = Some max_prob,
      e_position = idx,
      e_text = take 1 (drop idx text)\<rparr>"

text \<open>
  The loop of \<open>extract_entities\<close> over \<open>enumerate(zip(probabilities[0], mask))\<close>,
  from position \<open>idx\<close> on.
\<close>

fun scan_tokens :: "extractor \<Rightarrow> string \<Rightarrow> nat \<Rightarrow> (rat list \<times> int) list \<Rightarrow> error + entity list" where
  "scan_tokens ex text idx [] = Inr []"
| "scan_tokens ex text idx ((probs, m) # rest) =
     (if m = 0 then scan_tokens ex text (Suc idx) rest
      else (case top_class probs of
              None \<Rightarrow> Inl (ValueError ''zero-size array to reduction operation'')
            | Some (max_prob, entity_type) \<Rightarrow>
                if max_prob \<ge> x_threshold ex
                then (if entity_type < length ENTITY_TYPES
                      then (case scan_tokens ex text (Suc idx) rest of
                              Inl e \<Rightarrow> Inl e
                            | Inr ents \<Rightarrow>
                                Inr (make_entity text idx max_prob entity_type # ents))
                      else Inl (OtherError ''list index out of range''))
                else scan_tokens ex text (Suc idx) rest))"

text \<open>The body of the \<open>try\<close> of \<open>extract_entities\<close>.\<close>

definition extract_body :: "extractor \<Rightarrow> string \<Rightarrow> error + entity list" where
  "extract_body ex text =
     (case transform (x_tokenize_text ex) text of
        Inl e \<Rightarrow> Inl e
      | Inr processed \<Rightarrow>
          (case entity_model ex [(input_ids processed, attention_mask processed)] of
             Inl e \<Rightarrow> Inl e
           | Inr [] \<Rightarrow> Inl (OtherError ''index 0 is out of bounds'')
           | Inr (probabilities0 # _) \<Rightarrow>
               scan_tokens ex text 0 (zip probabilities0 (attention_mask processed))))"

text \<open>
  \<open>extract_entities\<close>: an empty text is refused before the \<open>try\<close>; inside it every
  exception is re-raised as \<open>RuntimeError\<close>; the counters are updated on success.
\<close>

definition extract_entities ::
  "extractor \<Rightarrow> string \<Rightarrow> extractor_metrics \<Rightarrow> (error + entity list) \<times> extractor_metrics" where
  "extract_entities ex text pm =
     (if text = [] then (Inl (ValueError ''Invalid input text''), pm)
      else (case extract_body ex text of
              Inl e \<Rightarrow> (Inl (RuntimeError ''Entity extraction failed''), pm)
            | Inr ents \<Rightarrow>
                (Inr ents,
                 pm\<lparr>processed_texts := processed_texts pm + 1,
                    successful_extractions := successful_extractions pm + length ents\<rparr>)))"

text \<open>
  The inner loop of \<open>extract_batch\<close> over \<open>enumerate(batch_probabilities[idx])\<close>: the
  mask row is subscripted with the token index, which raises beyond its end.
\<close>

fun scan_tokens_batch ::
  "extractor \<Rightarrow> string \<Rightarrow> int list \<Rightarrow> nat \<Rightarrow> rat list list \<Rightarrow> error + entity list" where
  "scan_tokens_batch ex text mask_row token_idx [] = Inr []"
| "scan_tokens_batch ex text mask_row token_idx (probs # rest) =
     (if token_idx \<ge> length mask_row then Inl (OtherError ''index out of bounds'')
      else if mask_row ! token_idx = 0
      then scan_tokens_batch ex text mask_row (Suc token_idx) rest
      else (case top_class probs of
              None \<Rightarrow> Inl (ValueError ''zero-size array to reduction operation'')
            | Some (max_prob, entity_type) \<Rightarrow>
                if max_prob \<ge> x_threshold ex
                then (if entity_type < length ENTITY_TYPES
                      then (case scan_tokens_batch ex text mask_row (Suc token_idx) rest of
                              Inl e \<Rightarrow> Inl e
                            | Inr text_entities \<Rightarrow>
                                Inr (make_entity text token_idx max_prob entity_type
                                     # text_entities))
                      else Inl (OtherError ''list index out of range''))
                else scan_tokens_batch ex text mask_row (Suc token_idx) rest))"

text \<open>
  The loop \<open>for idx, text in enumerate(batch)\<close>, from index \<open>idx\<close> on:
  \<open>batch_probabilities[idx]\<close> raises when the model returned fewer rows, and so does
  the first use of a mask row that does not exist.
\<close>

fun extract_texts ::
  "extractor \<Rightarrow> token_row list \<Rightarrow> rat list list list \<Rightarrow> nat \<Rightarrow> string list
     \<Rightarrow> error + entity list list" where
  "extract_texts ex processed_batch batch_probabilities idx [] = Inr []"
| "extract_texts ex processed_batch batch_probabilities idx (text # rest) =
     (if idx \<ge> length batch_probabilities then Inl (OtherError ''index out of bounds'')
      else (case scan_tokens_batch ex text
                   (if idx < length processed_batch then snd (processed_batch ! idx) else [])
                   0 (batch_probabilities ! idx) of
              Inl e \<Rightarrow> Inl e
            | Inr text_entities \<Rightarrow>
                (case extract_texts ex processed_batch batch_probabilities (Suc idx) rest of
                   Inl e \<Rightarrow> Inl e
                 | Inr batch_entities \<Rightarrow> Inr (text_entities # batch_entities))))"

text \<open>One sub-batch of \<open>extract_batch\<close>.\<close>

definition extract_chunk :: "extractor \<Rightarrow> string list \<Rightarrow> error + entity list list" where
  "extract_chunk ex batch =
     (case batch_transform (x_tokenize_text ex) batch of
        Inl e \<Rightarrow> Inl e
      | Inr processed_batch \<Rightarrow>
          (case entity_model ex processed_batch of
             Inl e \<Rightarrow> Inl e
           | Inr batch_probabilities \<Rightarrow>
               extract_texts ex processed_batch batch_probabilities 0 batch))"

text \<open>
  The loop \<open>for i in range(0, len(texts), self._batch_size)\<close>; \<open>range\<close> raises on a
  step of 0.
\<close>

function extract_chunks :: "extractor \<Rightarrow> nat \<Rightarrow> string list \<Rightarrow> error + entity list list" where
  "extract_chunks ex step texts =
     (if step = 0 then Inl (ValueError ''range() arg 3 must not be zero'')
      else if texts = [] then Inr []
      else (case extract_chunk ex (take step texts) of
              Inl e \<Rightarrow> Inl e
            | Inr batch_entities \<Rightarrow>
                (case extract_chunks ex step (drop step texts) of
                   Inl e \<Rightarrow> Inl e
                 | Inr results \<Rightarrow> Inr (batch_entities @ results))))"
  by pat_completeness auto
termination
  by (relation "measure (\<lambda>(ex, step, texts). length texts)") auto

declare extract_chunks.simps [simp del]

text \<open>
  \<open>extract_batch\<close>: an empty batch is refused before the \<open>try\<close>; every exception
  inside the \<open>try\<close> is re-raised as \<open>RuntimeError\<close>. The counters are not touched.
\<close>

definition extract_batch :: "extractor \<Rightarrow> string list \<Rightarrow> error + entity list list" where
  "extract_batch ex texts =
     (if texts = [] then Inl (ValueError ''Invalid input batch'')
      else (case extract_chunks ex (x_batch_size ex) texts of
              Inl e \<Rightarrow> Inl (RuntimeError ''Batch extraction failed'')
            | Inr results \<Rightarrow> Inr results))"

section \<open>Notions of the specification\<close>



text \<open>The counters of the performance metrics add up.\<close>

definition metrics_consistent :: "performance_metrics \<Rightarrow> bool" where
  "metrics_consistent m \<longleftrightarrow> total_requests m = successful_requests m + failed_requests m"


text \<open>
  The model scores every row of a batch as it scores the row alone: a property of
  the external model that the comparison of batch and single classification rests
  on.
\<close>

definition row_independent :: "(token_row list \<Rightarrow> error + rat list list) \<Rightarrow> bool" where
  "row_independent m \<longleftrightarrow>
     (\<forall>rows out. m rows = Inr out \<longrightarrow>
        length out = length rows \<and> (\<forall>j<length rows. m [rows ! j] = Inr [out ! j]))"

text \<open>
  The tokenizer pads or truncates every text to the same width (\<open>padding='max_length'\<close>,
  \<open>truncation=True\<close>).
\<close>

definition padded_to :: "nat \<Rightarrow> tokenizer \<Rightarrow> bool" where
  "padded_to width tok \<longleftrightarrow>
     (\<forall>s ids att. tok s = Inr (ids, att) \<longrightarrow> length ids = width \<and> length att = width)"

text \<open>The model scores a batch whenever it scores each of its rows alone.\<close>

definition accepts_batches :: "(token_row list \<Rightarrow> error + rat list list) \<Rightarrow> bool" where
  "accepts_batches m \<longleftrightarrow>
     (\<forall>rows. rows \<noteq> [] \<and> (\<forall>row \<in> set rows. \<exists>p. m [row] = Inr [p]) \<longrightarrow>
        (\<exists>out. m rows = Inr out))"

text \<open>
  Every entry of the cache is the result of classifying the texts that hash to its
  key. This holds for the empty cache and, as long as no two texts share a hash, it
  is kept by every classification.
\<close>

definition cache_consistent :: "classifier \<Rightarrow> intent_cache \<Rightarrow> bool" where
  "cache_consistent cl cache \<longleftrightarrow>
     (\<forall>text r. cache (hash cl text) = Some r \<longrightarrow> infer_intent cl text = Inr r)"

text \<open>The text field of an entity is the one-character slice at its position.\<close>

definition text_at_position :: "string \<Rightarrow> entity \<Rightarrow> bool" where
  "text_at_position s e \<longleftrightarrow> e_text e = take 1 (drop (e_position e) s)"

section \<open>Example inputs\<close>

text \<open>The default configuration of \<open>settings.py\<close>.\<close>

definition default_config :: processor_config where
  "default_config =
     \<lparr>max_sequence_length = 512, confidence_threshold = 19 / 20, batch_size_limit = 32\<rparr>"

definition example_intent :: intent_result where
  "example_intent =
     \<lparr>ir_intent = Some ''create_agent'', ir_confidence = Some (9 / 10),
      ir_status = Some ''low_confidence''\<rparr>"

definition example_entities :: "entity list" where
  "example_entities =
     [\<lparr>e_type = Some ''AGENT_NAME'', e_confidence = Some (4 / 5), e_position = 2,
       e_text = ''e''\<rparr>,
      \<lparr>e_type = Some ''PARAMETER'', e_confidence = Some (3 / 5), e_position = 5,
       e_text = ''e''\<rparr>]"


text \<open>
  Collaborators in the style of test doubles: their state counts the calls made to
  them; classification raises on the text \<open>boom\<close> and otherwise returns
  \<open>example_intent\<close>, extraction returns \<open>example_entities\<close>.
\<close>

definition counting_collaborators :: "nat collaborators" where
  "counting_collaborators =
     \<lparr>call_transform = (\<lambda>text calls. (Inr (), Suc calls)),
      call_classify_intent = (\<lambda>text calls.
        (if text = ''boom'' then Inl (RuntimeError ''Intent classification failed'')
         else Inr example_intent, Suc calls)),
      call_extract_entities = (\<lambda>text calls. (Inr example_entities, Suc calls))\<rparr>"


text \<open>The world after one successful request that took half a second.\<close>

definition warm_world :: "nat world" where
  "warm_world = \<lparr>metrics = update_metrics True (1 / 2) None init_metrics, collab = 3\<rparr>"

definition example_updates :: "(bool \<times> rat \<times> string option) list" where
  "example_updates = [(True, 1 / 2, None), (False, 0, Some ''Invalid input text'')]"




definition example_classifier :: classifier where
  "example_classifier =
     \<lparr>hash = (\<lambda>s. int (length s)),
      tokenize_text = (\<lambda>s. Inr ([101, int (length s), 102], [1, 1, 1])),
      intent_model = (\<lambda>rows. Inr (map (\<lambda>row.
         if fst row ! 1 \<ge> 5 then [24 / 25, 1 / 100, 1 / 100, 1 / 100, 1 / 100, 0]
         else [1 / 2, 1 / 10, 1 / 10, 1 / 10, 1 / 10, 1 / 10]) rows)),
      threshold = 19 / 20\<rparr>"

definition confident_result :: intent_result where
  "confident_result =
     \<lparr>ir_intent = Some ''create_agent'', ir_confidence = Some (24 / 25),
      ir_status = Some ''success''\<rparr>"

definition unsure_result :: intent_result where
  "unsure_result =
     \<lparr>ir_intent = Some ''unknown'', ir_confidence = Some (1 / 2),
      ir_status = Some ''low_confidence''\<rparr>"

text \<open>The cache after \<open>hello\<close> has been classified once.\<close>

definition warm_cache :: intent_cache where
  "warm_cache = snd (classify_intent example_classifier ''hello'' Map.empty)"

text \<open>
  An example extractor in the shape of the test suite's expectation for the text
  \<open>create a sales agent for zoho crm\<close>: ten token positions of which the last is
  padding, and a model that is confident at position 2 (\<open>AGENT_NAME\<close>, expected value
  \<open>sales agent\<close>) and at position 5 (\<open>INTEGRATION_TYPE\<close>, expected value
  \<open>zoho crm\<close>).
\<close>

definition example_extractor :: extractor where
  "example_extractor =
     \<lparr>x_tokenize_text = (\<lambda>s. Inr ([101, 1, 2, 3, 4, 5, 6, 7, 102, 0],
                                     [1, 1, 1, 1, 1, 1, 1, 1, 1, 0])),
      entity_model = (\<lambda>rows. Inr (map (\<lambda>row.
         [[1 / 2, 1 / 10, 1 / 10, 1 / 10, 1 / 10, 1 / 10],
          [1 / 2, 1 / 10, 1 / 10, 1 / 10, 1 / 10, 1 / 10],
          [19 / 20, 1 / 100, 1 / 100, 1 / 100, 1 / 100, 1 / 100],
          [1 / 2, 1 / 10, 1 / 10, 1 / 10, 1 / 10, 1 / 10],
          [1 / 2, 1 / 10, 1 / 10, 1 / 10, 1 / 10, 1 / 10],
          [1 / 100, 49 / 50, 1 / 100, 0, 0, 0],
          [1 / 2, 1 / 10, 1 / 10, 1 / 10, 1 / 10, 1 / 10],
          [1 / 2, 1 / 10, 1 / 10, 1 / 10, 1 / 10, 1 / 10],
          [1 / 2, 1 / 10, 1 / 10, 1 / 10, 1 / 10, 1 / 10],
          [99 / 100, 1 / 100, 0, 0, 0, 0]]) rows)),
      x_threshold = 19 / 20,
      x_batch_size = 32\<rparr>"

definition example_text :: string where
  "example_text = ''create a sales agent for zoho crm''"

definition example_found :: "string \<Rightarrow> entity list" where
  "example_found s =
     [\<lparr>e_type = Some ''AGENT_NAME'', e_confidence = Some (19 / 20), e_position = 2,
       e_text = take 1 (drop 2 s)\<rparr>,
      \<lparr>e_type = Some ''INTEGRATION_TYPE'', e_confidence = Some (49 / 50), e_position = 5,
       e_text = take 1 (drop 5 s)\<rparr>]"

section \<open>Properties of validation and merge\<close>










section \<open>Properties of the metrics\<close>

lemma update_metrics_counters:
  "total_requests (update_metrics s t e m) = total_requests m + 1"
  "successful_requests (update_metrics s t e m) = successful_requests m + (if s then 1 else 0)"
  "failed_requests (update_metrics s t e m) = failed_requests m + (if s then 0 else 1)"
  "average_latency (update_metrics s t e m) =
     (average_latency m * of_nat (total_requests m) + t) / of_nat (total_requests m + 1)"
  "last_error (update_metrics s t e m) = (if s then last_error m else e)"
  by (simp_all add: update_metrics_def Let_def)

lemma update_metrics_consistent:
  "metrics_consistent m \<Longrightarrow> metrics_consistent (update_metrics s t e m)"
  by (simp add: metrics_consistent_def update_metrics_counters)

lemma foldl_update_metrics_consistent:
  "metrics_consistent m \<Longrightarrow>
   metrics_consistent (foldl (\<lambda>m (s, t, e). update_metrics s t e m) m us)"
  by (induction us arbitrary: m) (auto simp: update_metrics_consistent)

lemma init_metrics_consistent: "metrics_consistent init_metrics"
  by (simp add: metrics_consistent_def init_metrics_def)

text \<open>
  Every path through \<open>process_text\<close> updates the metrics exactly once: as a success
  when it returns, and as a failure with processing time 0 when it raises.
\<close>

lemma process_text_metrics:
  "metrics (snd (process_text cfg coll rid elapsed text w)) =
     (case fst (process_text cfg coll rid elapsed text w) of
        Inl e \<Rightarrow> update_metrics False 0 (Some (str_error e)) (metrics w)
      | Inr r \<Rightarrow> update_metrics True elapsed None (metrics w))"
  by (auto simp: process_text_def fail_request_def split: prod.splits sum.splits)

text \<open>
  C10. The counters add up after construction and after every sequence of metrics
  updates; every request, returning or raising, keeps them adding up; and a request
  that raises enters the running average with a processing time of 0.
\<close>

theorem metrics_invariant:
  "metrics_consistent (foldl (\<lambda>m (s, t, e). update_metrics s t e m) init_metrics us) \<and>
   (metrics_consistent (metrics w) \<longrightarrow>
      metrics_consistent (metrics (snd (process_text cfg coll rid elapsed text w)))) \<and>
   (isl (fst (process_text cfg coll rid elapsed text w)) \<longrightarrow>
      average_latency (metrics (snd (process_text cfg coll rid elapsed text w))) =
        (average_latency (metrics w) * of_nat (total_requests (metrics w)) + 0) /
          of_nat (total_requests (metrics w) + 1))"
proof (intro conjI impI)
  show "metrics_consistent (foldl (\<lambda>m (s, t, e). update_metrics s t e m) init_metrics us)"
    by (rule foldl_update_metrics_consistent [OF init_metrics_consistent])
next
  assume "metrics_consistent (metrics w)"
  then show "metrics_consistent (metrics (snd (process_text cfg coll rid elapsed text w)))"
    by (simp add: process_text_metrics update_metrics_consistent split: sum.splits)
next
  assume "isl (fst (process_text cfg coll rid elapsed text w))"
  then obtain e where "fst (process_text cfg coll rid elapsed text w) = Inl e"
    by (auto simp: isl_def)
  then show "average_latency (metrics (snd (process_text cfg coll rid elapsed text w))) =
        (average_latency (metrics w) * of_nat (total_requests (metrics w)) + 0) /
          of_nat (total_requests (metrics w) + 1)"
    by (simp add: process_text_metrics update_metrics_counters)
qed

lemma example_process_boom:
  "process_text default_config counting_collaborators ''req_1'' (1 / 4) ''boom'' warm_world =
     (Inl (RuntimeError ''Intent classification failed''),
      \<lparr>metrics = \<lparr>total_requests = 2, successful_requests = 1, failed_requests = 1,
                  average_latency = 1 / 4,
                  last_error = Some ''Intent classification failed''\<rparr>,
       collab = 6\<rparr>)"
  by (simp add: process_text_def fail_request_def default_config_def
        counting_collaborators_def warm_world_def init_metrics_def update_metrics_def)

theorem metrics_invariant_witness:
  "metrics_consistent
     (foldl (\<lambda>m (s, t, e). update_metrics s t e m) init_metrics example_updates) \<and>
   metrics_consistent (metrics warm_world) \<and>
   isl (fst (process_text default_config counting_collaborators ''req_1'' (1 / 4) ''boom''
               warm_world)) \<and>
   metrics_consistent (metrics (snd (process_text default_config counting_collaborators
      ''req_1'' (1 / 4) ''boom'' warm_world))) \<and>
   average_latency (metrics (snd (process_text default_config counting_collaborators
      ''req_1'' (1 / 4) ''boom'' warm_world))) = (1 / 2 * 1 + 0) / 2"
proof -
  have c: "metrics_consistent (metrics warm_world)"
    by (simp add: warm_world_def init_metrics_consistent update_metrics_consistent)
  have f: "isl (fst (process_text default_config counting_collaborators ''req_1'' (1 / 4)
                       ''boom'' warm_world))"
    by (simp add: example_process_boom)
  have a: "average_latency (metrics warm_world) = 1 / 2"
          "total_requests (metrics warm_world) = 1"
    by (simp_all add: warm_world_def init_metrics_def update_metrics_def)
  from metrics_invariant [of example_updates warm_world default_config
      counting_collaborators "''req_1''" "1 / 4" "''boom''"] c f a
  show ?thesis by simp
qed

section \<open>Properties of single requests\<close>

text \<open>
  C5. For a text that is empty or longer than the configured maximum,
  \<open>process_text\<close> raises \<open>ValueError\<close>; the outcome is the same whatever the
  collaborators are and their state is untouched, so no preprocessing or inference
  call is made; \<open>failed_requests\<close> and \<open>total_requests\<close> grow by exactly 1 and
  \<open>successful_requests\<close> stays.
\<close>

theorem invalid_input_rejected:
  assumes "text = [] \<or> length text > max_sequence_length cfg"
  shows "\<exists>msg. process_text cfg coll rid elapsed text w =
             (Inl (ValueError msg),
              w\<lparr>metrics := update_metrics False 0 (Some msg) (metrics w)\<rparr>) \<and>
           msg = (if text = [] then ''Invalid input text''
                  else ''Input text exceeds maximum length'') \<and>
           collab (snd (process_text cfg coll rid elapsed text w)) = collab w \<and>
           failed_requests (metrics (snd (process_text cfg coll rid elapsed text w))) =
             failed_requests (metrics w) + 1 \<and>
           total_requests (metrics (snd (process_text cfg coll rid elapsed text w))) =
             total_requests (metrics w) + 1 \<and>
           successful_requests (metrics (snd (process_text cfg coll rid elapsed text w))) =
             successful_requests (metrics w)"
proof (cases "text = []")
  case True
  then show ?thesis
    by (simp add: process_text_def fail_request_def update_metrics_counters)
next
  case False
  with assms have "length text > max_sequence_length cfg" by simp
  with False show ?thesis
    by (simp add: process_text_def fail_request_def update_metrics_counters)
qed

theorem invalid_input_rejected_witness:
  "process_text default_config counting_collaborators ''req_2'' (1 / 4) [] warm_world =
     (Inl (ValueError ''Invalid input text''),
      warm_world\<lparr>metrics :=
        update_metrics False 0 (Some ''Invalid input text'') (metrics warm_world)\<rparr>) \<and>
   collab (snd (process_text default_config counting_collaborators ''req_2'' (1 / 4) []
                  warm_world)) = 3 \<and>
   failed_requests (metrics (snd (process_text default_config counting_collaborators
      ''req_2'' (1 / 4) [] warm_world))) = 1 \<and>
   total_requests (metrics (snd (process_text default_config counting_collaborators
      ''req_2'' (1 / 4) [] warm_world))) = 2 \<and>
   length (replicate 513 CHR ''a'') > max_sequence_length default_config \<and>
   fst (process_text default_config counting_collaborators ''req_3'' (1 / 4)
          (replicate 513 CHR ''a'') warm_world) =
     Inl (ValueError ''Input text exceeds maximum length'') \<and>
   collab (snd (process_text default_config counting_collaborators ''req_3'' (1 / 4)
                  (replicate 513 CHR ''a'') warm_world)) = 3"
proof -
  have m: "failed_requests (metrics warm_world) = 0" "total_requests (metrics warm_world) = 1"
          "collab warm_world = 3"
    by (simp_all add: warm_world_def init_metrics_def update_metrics_def)
  have l: "length (replicate 513 CHR ''a'') > max_sequence_length default_config"
    by (simp add: default_config_def)
  have n: "replicate 513 CHR ''a'' \<noteq> []"
    by simp
  from invalid_input_rejected [of "[]" default_config counting_collaborators "''req_2''"
         "1 / 4" warm_world]
       invalid_input_rejected [of "replicate 513 CHR ''a''" default_config
         counting_collaborators "''req_3''" "1 / 4" warm_world] m l n
  show ?thesis by auto
qed

text \<open>
  C1. When the text passes the input check and preprocessing returns, and the intent
  classification or the entity extraction raises, \<open>process_text\<close> raises that very
  exception (the classifier's when both raise) and returns no result; the request
  is counted as failed.
\<close>

theorem inference_failure_fails_request:
  assumes "text \<noteq> []" and "length text \<le> max_sequence_length cfg"
    and "call_transform coll text (collab w) = (Inr u, c1)"
    and "call_classify_intent coll text c1 = (intent_outcome, c2)"
    and "call_extract_entities coll text c2 = (entities_outcome, c3)"
    and "isl intent_outcome \<or> isl entities_outcome"
  shows "\<exists>e. fst (process_text cfg coll rid elapsed text w) = Inl e \<and>
           (intent_outcome = Inl e \<or>
            (\<exists>ir. intent_outcome = Inr ir) \<and> entities_outcome = Inl e) \<and>
           failed_requests (metrics (snd (process_text cfg coll rid elapsed text w))) =
             failed_requests (metrics w) + 1 \<and>
           successful_requests (metrics (snd (process_text cfg coll rid elapsed text w))) =
             successful_requests (metrics w)"
proof (cases intent_outcome)
  case (Inl e)
  with assms show ?thesis
    by (simp add: process_text_def fail_request_def update_metrics_counters)
next
  case (Inr ir)
  with assms(6) obtain e where "entities_outcome = Inl e"
    by (auto simp: isl_def)
  with Inr assms show ?thesis
    by (simp add: process_text_def fail_request_def update_metrics_counters)
qed

theorem inference_failure_fails_request_witness:
  "''boom'' \<noteq> [] \<and> length ''boom'' \<le> max_sequence_length default_config \<and>
   call_transform counting_collaborators ''boom'' (collab warm_world) = (Inr (), 4) \<and>
   call_classify_intent counting_collaborators ''boom'' 4 =
     (Inl (RuntimeError ''Intent classification failed''), 5) \<and>
   call_extract_entities counting_collaborators ''boom'' 5 = (Inr example_entities, 6) \<and>
   fst (process_text default_config counting_collaborators ''req_1'' (1 / 4) ''boom''
          warm_world) = Inl (RuntimeError ''Intent classification failed'') \<and>
   failed_requests (metrics (snd (process_text default_config counting_collaborators
      ''req_1'' (1 / 4) ''boom'' warm_world))) = 1"
proof -
  have t: "call_transform counting_collaborators ''boom'' (collab warm_world) = (Inr (), 4)"
    by (simp add: counting_collaborators_def warm_world_def)
  have c: "call_classify_intent counting_collaborators ''boom'' 4 =
             (Inl (RuntimeError ''Intent classification failed''), 5)"
    by (simp add: counting_collaborators_def)
  have x: "call_extract_entities counting_collaborators ''boom'' 5 = (Inr example_entities, 6)"
    by (simp add: counting_collaborators_def)
  have l: "''boom'' \<noteq> []" "length ''boom'' \<le> max_sequence_length default_config"
    by (simp_all add: default_config_def)
  have f: "failed_requests (metrics warm_world) = 0"
    by (simp add: warm_world_def init_metrics_def update_metrics_def)
  from inference_failure_fails_request [OF l t c x, where rid = "''req_1''" and elapsed = "1 / 4"]
    t c x l f
  show ?thesis by auto
qed

section \<open>Properties of batches\<close>








text \<open>
  The outcome of a request depends on the world through the collaborators' state
  only: the orchestrator itself hands nothing from one request to another.
\<close>

lemma process_text_outcome_ignores_metrics:
  "collab w = collab w' \<Longrightarrow>
   fst (process_text cfg coll rid elapsed s w) = fst (process_text cfg coll rid elapsed s w')"
  by (auto simp: process_text_def fail_request_def split: prod.splits sum.splits)





text \<open>
  C9. A batch of 33 texts under the default limit of 32: the size check raises
  \<open>ValueError\<close> inside the \<open>try\<close> of \<open>process_batch\<close>, whose \<open>except\<close> branch
  re-raises it as \<open>RuntimeError\<close>, the class of a processing failure. No task is
  run: the world is unchanged.
\<close>

theorem oversized_batch_raises_runtime_error:
  "process_batch default_config coll clock sched (replicate 33 ''hello'') w =
     (Some (Inl (RuntimeError ''Batch processing failed: Invalid batch size. Limit: 32'')), w)"
  by (simp add: process_batch_def default_config_def str_nat.simps digit_char_def)

text \<open>The same input check in \<open>process_text\<close> reaches the caller as \<open>ValueError\<close>.\<close>

lemma process_text_keeps_value_error:
  "fst (process_text default_config coll rid elapsed [] w) =
     Inl (ValueError ''Invalid input text'')"
  by (simp add: process_text_def fail_request_def)

text \<open>Whatever its size, an empty or oversized batch is refused with \<open>RuntimeError\<close>.\<close>

lemma invalid_batch_refused:
  "texts = [] \<or> length texts > batch_size_limit cfg \<Longrightarrow>
   process_batch cfg coll clock sched texts w =
     (Some (Inl (RuntimeError (''Batch processing failed: Invalid batch size. Limit: '' @
        str_nat (batch_size_limit cfg)))), w)"
  by (simp add: process_batch_def)

section \<open>Properties of the intent classifier\<close>

lemma fold_max_Max: "fold max ps (p :: rat) = Max (set (p # ps))"
  by (rule Max.set_eq_fold [symmetric])

lemma first_index_nth: "v \<in> set ps \<Longrightarrow> first_index v ps < length ps \<and> ps ! first_index v ps = v"
  by (induction ps) auto

lemma top_class_Max:
  assumes "top_class ps = Some (m, i)"
  shows "m = Max (set ps) \<and> i < length ps \<and> ps ! i = m"
proof (cases ps)
  case Nil
  with assms show ?thesis by simp
next
  case (Cons p ps')
  with assms have "m = fold max ps' p" and i: "i = first_index m ps"
    by (auto simp: Let_def)
  with Cons have m: "m = Max (set ps)"
    by (simp only: fold_max_Max)
  have "m \<in> set ps"
    unfolding m using Cons by (intro Max_in) simp_all
  from first_index_nth [OF this] m i show ?thesis by simp
qed

lemma top_class_nonempty: "ps \<noteq> [] \<Longrightarrow> \<exists>m i. top_class ps = Some (m, i)"
  by (cases ps) (simp_all add: Let_def)

lemma gate_batch_single: "gate_batch cl conf label = gate_single cl conf label"
  by (simp add: gate_batch_def gate_single_def not_less)

lemma classify_intent_consistent:
  assumes "cache_consistent cl cache"
  shows "fst (classify_intent cl text cache) =
           (case infer_intent cl text of
              Inl e \<Rightarrow> (case cache (hash cl text) of
                          None \<Rightarrow> Inl (RuntimeError ''Intent classification failed'')
                        | Some r \<Rightarrow> Inr r)
            | Inr r \<Rightarrow> Inr r)"
  using assms
  by (auto simp: classify_intent_def cache_consistent_def Let_def split: option.splits sum.splits)

text \<open>
  C6. Whenever preprocessing and the model return a probability row for the text,
  \<open>classify_intent\<close> reports the largest probability of the row as confidence; when
  it is below the threshold the intent is \<open>unknown\<close> with status \<open>low_confidence\<close>,
  otherwise the intent is the label at the position of that probability with status
  \<open>success\<close>. The cache may hold results of earlier classifications.
\<close>

theorem confidence_gating:
  assumes "cache_consistent cl cache"
    and "transform (tokenize_text cl) text = Inr processed"
    and "intent_model cl [(input_ids processed, attention_mask processed)] = Inr [probs]"
    and "probs \<noteq> []" and "length probs \<le> length INTENT_LABELS"
  shows "\<exists>i<length probs. probs ! i = Max (set probs) \<and>
           fst (classify_intent cl text cache) =
             Inr (if Max (set probs) < threshold cl
                  then \<lparr>ir_intent = Some ''unknown'', ir_confidence = Some (Max (set probs)),
                        ir_status = Some ''low_confidence''\<rparr>
                  else \<lparr>ir_intent = Some (INTENT_LABELS ! i),
                        ir_confidence = Some (Max (set probs)),
                        ir_status = Some ''success''\<rparr>)"
proof -
  from top_class_nonempty [OF assms(4)] obtain m i where t: "top_class probs = Some (m, i)"
    by blast
  from top_class_Max [OF t] have mi: "m = Max (set probs)" "i < length probs" "probs ! i = m"
    by simp_all
  with assms(5) have "i < length INTENT_LABELS" by simp
  with assms(2,3) t have "infer_intent cl text = Inr (gate_single cl m (INTENT_LABELS ! i))"
    by (simp add: infer_intent_def)
  with classify_intent_consistent [OF assms(1), of "text"]
  have "fst (classify_intent cl text cache) = Inr (gate_single cl m (INTENT_LABELS ! i))"
    by simp
  with mi show ?thesis
    by (auto simp: gate_single_def)
qed
lemma transform_all_list_all2:
  "transform_all tok ts = Inr encs \<Longrightarrow> list_all2 (\<lambda>t enc. transform tok t = Inr enc) ts encs"
  by (induction ts arbitrary: encs) (auto split: sum.splits)

lemma vstack_Inr: "vstack rows = Inr out \<Longrightarrow> out = rows"
  by (simp add: vstack_def split: if_splits)

lemma batch_transform_rows:
  assumes "batch_transform tok ts = Inr rows"
  shows "list_all2 (\<lambda>t row. \<exists>enc. transform tok t = Inr enc \<and>
                      row = (input_ids enc, attention_mask enc)) ts rows"
proof -
  from assms obtain encs ids masks where e: "transform_all tok ts = Inr encs"
    and "vstack (map input_ids encs) = Inr ids" "vstack (map attention_mask encs) = Inr masks"
    and r: "rows = zip ids masks"
    by (auto simp: batch_transform_def split: if_splits sum.splits)
  then have "rows = map (\<lambda>enc. (input_ids enc, attention_mask enc)) encs"
    by (auto dest!: vstack_Inr simp: zip_map_map zip_same_conv_map)
  with transform_all_list_all2 [OF e] show ?thesis
    by (auto simp: list_all2_map2 elim!: list_all2_mono)
qed

lemma those_Some_map: "those xs = Some ys \<Longrightarrow> xs = map Some ys"
  by (induction xs arbitrary: ys) (auto split: option.splits)

lemma store_results_list_all2:
  "store_results cl items cache = (Inr rs, cache') \<Longrightarrow>
   list_all2 (\<lambda>item r. snd (fst item) < length INTENT_LABELS \<and>
                r = gate_batch cl (fst (fst item)) (INTENT_LABELS ! snd (fst item))) items rs"
proof (induction cl items cache arbitrary: rs cache' rule: store_results.induct)
  case (1 cl cache)
  then show ?case by simp
next
  case (2 cl conf pred_idx t rest cache)
  let ?r = "gate_batch cl conf (INTENT_LABELS ! pred_idx)"
  from "2.prems" have lt: "pred_idx < length INTENT_LABELS"
    by (simp split: if_splits)
  with "2.prems" obtain rs' where
    s: "store_results cl rest (cache(hash cl t \<mapsto> ?r)) = (Inr rs', cache')"
    and rs: "rs = ?r # rs'"
    by (auto simp: Let_def split: prod.splits sum.splits)
  from "2.IH" [OF lt refl s] rs lt show ?case
    by simp
qed

text \<open>
  A sub-batch that is classified without an exception yields, for each of its texts,
  the result that the inference of \<open>classify_intent\<close> computes for that text.
\<close>

lemma classify_chunk_infer:
  assumes ri: "row_independent (intent_model cl)"
    and ok: "classify_chunk cl chunk cache = (Inr rs, cache')"
  shows "list_all2 (\<lambda>t r. infer_intent cl t = Inr r) chunk rs"
proof -
  from ok obtain rows probs tops where
    bt: "batch_transform (tokenize_text cl) chunk = Inr rows"
    and im: "intent_model cl rows = Inr probs"
    and th: "those (map top_class probs) = Some tops"
    and sr: "store_results cl (zip tops chunk) cache = (Inr rs, cache')"
    by (auto simp: classify_chunk_def split: sum.splits option.splits)
  note rows = batch_transform_rows [OF bt]
  have len_rows: "length rows = length chunk"
    using rows by (simp add: list_all2_lengthD)
  from ri im have len_probs: "length probs = length rows"
    and single: "\<And>j. j < length rows \<Longrightarrow> intent_model cl [rows ! j] = Inr [probs ! j]"
    by (auto simp: row_independent_def)
  from those_Some_map [OF th] have tops: "map top_class probs = map Some tops" .
  then have len_tops: "length tops = length probs"
    by (metis length_map)
  note stored = store_results_list_all2 [OF sr]
  have len_rs: "length rs = length chunk"
    using stored len_tops len_probs len_rows by (simp add: list_all2_lengthD [symmetric])
  have "infer_intent cl (chunk ! j) = Inr (rs ! j)" if j: "j < length chunk" for j
  proof -
    from rows j obtain enc where enc: "transform (tokenize_text cl) (chunk ! j) = Inr enc"
      "rows ! j = (input_ids enc, attention_mask enc)"
      by (auto simp: list_all2_conv_all_nth)
    from j len_rows single have m: "intent_model cl [rows ! j] = Inr [probs ! j]"
      by simp
    from tops j len_rows len_probs len_tops have tc: "top_class (probs ! j) = Some (tops ! j)"
      by (metis nth_map)
    from stored j len_tops len_probs len_rows
    have "snd (tops ! j) < length INTENT_LABELS \<and>
          rs ! j = gate_batch cl (fst (tops ! j)) (INTENT_LABELS ! snd (tops ! j))"
      by (auto simp: list_all2_conv_all_nth)
    with enc m tc show ?thesis
      by (cases "tops ! j") (simp add: infer_intent_def gate_batch_single)
  qed
  with len_rs show ?thesis
    by (simp add: list_all2_conv_all_nth)
qed

lemma classify_chunks_infer:
  "row_independent (intent_model cl) \<Longrightarrow>
   classify_chunks cl texts cache = (Inr rs, cache') \<Longrightarrow>
   list_all2 (\<lambda>t r. infer_intent cl t = Inr r) texts rs"
proof (induction cl texts cache arbitrary: rs cache' rule: classify_chunks.induct)
  case (1 cl texts cache)
  show ?case
  proof (cases "texts = []")
    case True
    with "1.prems"(2) show ?thesis
      by (simp add: classify_chunks.simps)
  next
    case False
    with "1.prems"(2) obtain rs1 cache1 rs2 where
      c1: "classify_chunk cl (take BATCH_SIZE texts) cache = (Inr rs1, cache1)"
      and c2: "classify_chunks cl (drop BATCH_SIZE texts) cache1 = (Inr rs2, cache')"
      and rs: "rs = rs1 @ rs2"
      by (subst (asm) classify_chunks.simps) (auto split: prod.splits sum.splits)
    have a: "list_all2 (\<lambda>t r. infer_intent cl t = Inr r) (take BATCH_SIZE texts) rs1"
      by (rule classify_chunk_infer [OF "1.prems"(1) c1])
    have b: "list_all2 (\<lambda>t r. infer_intent cl t = Inr r) (drop BATCH_SIZE texts) rs2"
      using "1.IH" [OF False _ _ "1.prems"(1) c2] c1 by simp
    from list_all2_appendI [OF a b] rs show ?thesis
      by simp
  qed
qed
text \<open>
  An example classifier: the hash of a text is its length, the tokenizer encodes the
  length, and the model scores a row by that length alone, confidently from 5
  characters on.
\<close>

lemma example_row_independent: "row_independent (intent_model example_classifier)"
  by (auto simp: row_independent_def example_classifier_def)

lemma example_infer:
  "infer_intent example_classifier s =
     (if s = [] then Inl (ValueError ''Invalid input text'')
      else if length s \<ge> 5 then Inr confident_result else Inr unsure_result)"
  by (simp add: infer_intent_def transform_def example_classifier_def gate_single_def
        INTENT_LABELS_def confident_result_def unsure_result_def Let_def)

lemma example_hash: "hash example_classifier s = int (length s)"
  by (simp add: example_classifier_def)

lemma warm_cache_eq: "warm_cache = [5 \<mapsto> confident_result]"
  by (simp add: warm_cache_def classify_intent_def example_infer example_hash)

lemma warm_cache_consistent: "cache_consistent example_classifier warm_cache"
  by (auto simp: cache_consistent_def warm_cache_eq example_infer example_hash
           split: if_splits)

lemma empty_cache_consistent: "cache_consistent cl Map.empty"
  by (simp add: cache_consistent_def)

text \<open>
  As long as no two texts share a hash, a single classification keeps the cache
  consistent.
\<close>

lemma classify_intent_keeps_consistent:
  assumes "inj (hash cl)" and "cache_consistent cl cache"
  shows "cache_consistent cl (snd (classify_intent cl s cache))"
proof (cases "cache (hash cl s)")
  case (Some r)
  with assms(2) show ?thesis
    by (simp add: classify_intent_def)
next
  case None
  show ?thesis
  proof (cases "infer_intent cl s")
    case (Inl e)
    with None assms(2) show ?thesis
      by (simp add: classify_intent_def)
  next
    case (Inr r)
    with None have "snd (classify_intent cl s cache) = cache(hash cl s \<mapsto> r)"
      by (simp add: classify_intent_def)
    moreover have "infer_intent cl s' = Inr r'"
      if "(cache(hash cl s \<mapsto> r)) (hash cl s') = Some r'" for s' r'
    proof (cases "hash cl s' = hash cl s")
      case True
      with assms(1) have "s' = s" by (simp add: inj_eq)
      with that Inr show ?thesis by simp
    next
      case False
      with that assms(2) show ?thesis
        by (simp add: cache_consistent_def)
    qed
    ultimately show ?thesis
      by (simp add: cache_consistent_def)
  qed
qed

lemma store_keeps_consistent:
  assumes "inj (hash cl)" and "cache_consistent cl cache" and "infer_intent cl s = Inr r"
  shows "cache_consistent cl (cache(hash cl s \<mapsto> r))"
proof -
  have "infer_intent cl s' = Inr r'"
    if "(cache(hash cl s \<mapsto> r)) (hash cl s') = Some r'" for s' r'
  proof (cases "hash cl s' = hash cl s")
    case True
    with assms(1) have "s' = s" by (simp add: inj_eq)
    with that assms(3) show ?thesis by simp
  next
    case False
    with that assms(2) show ?thesis
      by (simp add: cache_consistent_def)
  qed
  then show ?thesis
    unfolding cache_consistent_def by blast
qed

lemma store_results_keeps_consistent:
  assumes "inj (hash cl)"
  shows "\<forall>item \<in> set items. snd (fst item) < length INTENT_LABELS \<longrightarrow>
           infer_intent cl (snd item) =
             Inr (gate_batch cl (fst (fst item)) (INTENT_LABELS ! snd (fst item))) \<Longrightarrow>
         cache_consistent cl cache \<Longrightarrow>
         cache_consistent cl (snd (store_results cl items cache))"
proof (induction items arbitrary: cache)
  case Nil
  then show ?case by simp
next
  case (Cons item items)
  obtain conf pred_idx t where item: "item = ((conf, pred_idx), t)"
    by (metis surj_pair)
  show ?case
  proof (cases "pred_idx < length INTENT_LABELS")
    case False
    with Cons.prems(2) show ?thesis
      by (simp add: item)
  next
    case True
    define r where "r = gate_batch cl conf (INTENT_LABELS ! pred_idx)"
    define d where "d = cache(hash cl t \<mapsto> r)"
    from Cons.prems(1) True have "infer_intent cl t = Inr r"
      by (simp add: item r_def)
    from store_keeps_consistent [OF assms Cons.prems(2) this]
    have "cache_consistent cl d"
      by (simp add: d_def)
    with Cons.IH [of d] Cons.prems(1)
    have "cache_consistent cl (snd (store_results cl items d))"
      by simp
    moreover have "snd (store_results cl (item # items) cache) =
                     snd (store_results cl items d)"
      using True unfolding item d_def r_def
      by (simp add: Let_def split: prod.splits sum.splits)
    ultimately show ?thesis by simp
  qed
qed

lemma classify_chunk_keeps_consistent:
  assumes inj: "inj (hash cl)" and ri: "row_independent (intent_model cl)"
    and cc: "cache_consistent cl cache"
  shows "cache_consistent cl (snd (classify_chunk cl chunk cache))"
proof (cases "batch_transform (tokenize_text cl) chunk")
  case (Inl e)
  with cc show ?thesis by (simp add: classify_chunk_def)
next
  case (Inr rows)
  note bt = this
  show ?thesis
  proof (cases "intent_model cl rows")
    case (Inl e)
    with bt cc show ?thesis by (simp add: classify_chunk_def)
  next
    case (Inr probs)
    note im = this
    show ?thesis
    proof (cases "those (map top_class probs)")
      case None
      with bt im cc show ?thesis by (simp add: classify_chunk_def)
    next
      case (Some tops)
      note rows = batch_transform_rows [OF bt]
      have len_rows: "length rows = length chunk"
        using rows by (simp add: list_all2_lengthD)
      from ri im have len_probs: "length probs = length rows"
        and single: "\<And>j. j < length rows \<Longrightarrow> intent_model cl [rows ! j] = Inr [probs ! j]"
        by (auto simp: row_independent_def)
      from those_Some_map [OF Some] have tops: "map top_class probs = map Some tops" .
      then have len_tops: "length tops = length probs"
        by (metis length_map)
      have "infer_intent cl (snd item) =
              Inr (gate_batch cl (fst (fst item)) (INTENT_LABELS ! snd (fst item)))"
        if "item \<in> set (zip tops chunk)" "snd (fst item) < length INTENT_LABELS" for item
      proof -
        from that(1) obtain j where j: "j < length chunk" "item = (tops ! j, chunk ! j)"
          by (auto simp: in_set_zip)
        from rows j obtain enc where enc: "transform (tokenize_text cl) (chunk ! j) = Inr enc"
          "rows ! j = (input_ids enc, attention_mask enc)"
          by (auto simp: list_all2_conv_all_nth)
        from j len_rows single have m: "intent_model cl [rows ! j] = Inr [probs ! j]"
          by simp
        from tops j len_rows len_probs len_tops
        have tc: "top_class (probs ! j) = Some (tops ! j)"
          by (metis nth_map)
        with enc m that(2) j(2) show ?thesis
          by (cases "tops ! j") (simp add: infer_intent_def gate_batch_single)
      qed
      then have "\<forall>item \<in> set (zip tops chunk). snd (fst item) < length INTENT_LABELS \<longrightarrow>
          infer_intent cl (snd item) =
            Inr (gate_batch cl (fst (fst item)) (INTENT_LABELS ! snd (fst item)))"
        by blast
      from store_results_keeps_consistent [OF inj this cc] bt im Some show ?thesis
        by (simp add: classify_chunk_def)
    qed
  qed
qed

lemma classify_chunks_keeps_consistent:
  "inj (hash cl) \<Longrightarrow> row_independent (intent_model cl) \<Longrightarrow> cache_consistent cl cache \<Longrightarrow>
   cache_consistent cl (snd (classify_chunks cl texts cache))"
proof (induction cl texts cache rule: classify_chunks.induct)
  case (1 cl texts cache)
  show ?case
  proof (cases "texts = []")
    case True
    with "1.prems" show ?thesis by (simp add: classify_chunks.simps)
  next
    case False
    obtain o1 d1 where k: "classify_chunk cl (take BATCH_SIZE texts) cache = (o1, d1)"
      by (cases "classify_chunk cl (take BATCH_SIZE texts) cache")
    from classify_chunk_keeps_consistent [OF "1.prems", of "take BATCH_SIZE texts"] k
    have d1: "cache_consistent cl d1" by simp
    show ?thesis
    proof (cases o1)
      case (Inl e)
      with False k d1 show ?thesis
        by (simp add: classify_chunks.simps [of cl texts])
    next
      case (Inr rs1)
      from "1.IH" [OF False k [symmetric] Inr "1.prems"(1,2) d1]
      have "cache_consistent cl (snd (classify_chunks cl (drop BATCH_SIZE texts) d1))" .
      with False k Inr show ?thesis
        by (cases "classify_chunks cl (drop BATCH_SIZE texts) d1")
           (auto simp: classify_chunks.simps [of cl texts] split: sum.splits)
    qed
  qed
qed

text \<open>
  As long as no two texts share a hash and the model scores rows independently,
  batch classification keeps the cache consistent, also when it raises.
\<close>

lemma classify_batch_keeps_consistent:
  assumes "inj (hash cl)" and "row_independent (intent_model cl)"
    and "cache_consistent cl cache"
  shows "cache_consistent cl (snd (classify_batch cl texts cache))"
  using classify_chunks_keeps_consistent [OF assms, of texts] assms(3)
  by (cases "classify_chunks cl texts cache")
     (auto simp: classify_batch_def split: sum.splits)

theorem confidence_gating_witness:
  "cache_consistent example_classifier warm_cache \<and>
   transform (tokenize_text example_classifier) ''hi'' =
     Inr \<lparr>input_ids = [101, 2, 102], attention_mask = [1, 1, 1], original_length = 2,
          processed_length = 3\<rparr> \<and>
   intent_model example_classifier [([101, 2, 102], [1, 1, 1])] =
     Inr [[1 / 2, 1 / 10, 1 / 10, 1 / 10, 1 / 10, 1 / 10]] \<and>
   Max (set [1 / 2, 1 / 10, 1 / 10, 1 / 10, 1 / 10, 1 / 10 :: rat]) = 1 / 2 \<and>
   1 / 2 < threshold example_classifier \<and>
   fst (classify_intent example_classifier ''hi'' warm_cache) =
     Inr \<lparr>ir_intent = Some ''unknown'', ir_confidence = Some (1 / 2),
          ir_status = Some ''low_confidence''\<rparr> \<and>
   fst (classify_intent example_classifier ''hello'' warm_cache) = Inr confident_result"
proof -
  let ?probs = "[1 / 2, 1 / 10, 1 / 10, 1 / 10, 1 / 10, 1 / 10 :: rat]"
  let ?enc = "\<lparr>input_ids = [101, 2, 102], attention_mask = [1, 1, 1], original_length = 2,
          processed_length = 3\<rparr>"
  have t: "transform (tokenize_text example_classifier) ''hi'' = Inr ?enc"
    by (simp add: transform_def example_classifier_def)
  have m: "intent_model example_classifier [(input_ids ?enc, attention_mask ?enc)] =
             Inr [?probs]"
    by (simp add: example_classifier_def)
  have p: "?probs \<noteq> []" "length ?probs \<le> length INTENT_LABELS"
    by (simp_all add: INTENT_LABELS_def)
  have x: "Max (set ?probs) = 1 / 2"
    by simp
  have l: "1 / 2 < threshold example_classifier"
    by (simp add: example_classifier_def)
  from confidence_gating [OF warm_cache_consistent t m p] x l
  have "fst (classify_intent example_classifier ''hi'' warm_cache) =
     Inr \<lparr>ir_intent = Some ''unknown'', ir_confidence = Some (1 / 2),
          ir_status = Some ''low_confidence''\<rparr>"
    by auto
  moreover have "fst (classify_intent example_classifier ''hello'' warm_cache) =
      Inr confident_result"
    by (simp add: classify_intent_def warm_cache_eq example_hash)
  ultimately show ?thesis
    using warm_cache_consistent t m x l by simp
qed
text \<open>\<open>classify_batch\<close> never reads the cache: its results do not depend on it.\<close>

lemma store_results_ignores_cache:
  "fst (store_results cl items c1) = fst (store_results cl items c2)"
proof (induction items arbitrary: c1 c2)
  case Nil
  then show ?case by simp
next
  case (Cons item items)
  obtain conf pred_idx t where item: "item = ((conf, pred_idx), t)"
    by (metis surj_pair)
  define r where "r = gate_batch cl conf (INTENT_LABELS ! pred_idx)"
  define d1 where "d1 = c1(hash cl t \<mapsto> r)"
  define d2 where "d2 = c2(hash cl t \<mapsto> r)"
  obtain o1 e1 where s1: "store_results cl items d1 = (o1, e1)"
    by (cases "store_results cl items d1")
  obtain o2 e2 where s2: "store_results cl items d2 = (o2, e2)"
    by (cases "store_results cl items d2")
  from Cons.IH [of d1 d2] s1 s2 have eq: "o1 = o2"
    by simp
  have "fst (store_results cl (item # items) c1) =
          (if pred_idx < length INTENT_LABELS
           then (case o1 of Inl e \<Rightarrow> Inl e | Inr rs \<Rightarrow> Inr (r # rs))
           else Inl (OtherError ''list index out of range''))"
    using s1 unfolding item d1_def r_def
    by (simp add: Let_def split: sum.splits)
  moreover have "fst (store_results cl (item # items) c2) =
          (if pred_idx < length INTENT_LABELS
           then (case o2 of Inl e \<Rightarrow> Inl e | Inr rs \<Rightarrow> Inr (r # rs))
           else Inl (OtherError ''list index out of range''))"
    using s2 unfolding item d2_def r_def
    by (simp add: Let_def split: sum.splits)
  ultimately show ?case
    using eq by simp
qed

lemma classify_chunk_ignores_cache:
  "fst (classify_chunk cl chunk c1) = fst (classify_chunk cl chunk c2)"
  by (auto simp: classify_chunk_def store_results_ignores_cache [of cl _ c1 c2]
           split: sum.splits option.splits)

lemma classify_chunks_ignores_cache:
  "fst (classify_chunks cl texts c1) = fst (classify_chunks cl texts c2)"
proof (induction cl texts c1 arbitrary: c2 rule: classify_chunks.induct)
  case (1 cl texts c1)
  show ?case
  proof (cases "texts = []")
    case True
    then show ?thesis by (simp add: classify_chunks.simps)
  next
    case False
    obtain o1 d1 where k1: "classify_chunk cl (take BATCH_SIZE texts) c1 = (o1, d1)"
      by (cases "classify_chunk cl (take BATCH_SIZE texts) c1")
    obtain o2 d2 where k2: "classify_chunk cl (take BATCH_SIZE texts) c2 = (o2, d2)"
      by (cases "classify_chunk cl (take BATCH_SIZE texts) c2")
    from classify_chunk_ignores_cache [of cl "take BATCH_SIZE texts" c1 c2] k1 k2
    have k2': "classify_chunk cl (take BATCH_SIZE texts) c2 = (o1, d2)" by simp
    show ?thesis
    proof (cases o1)
      case (Inl e)
      from False k1 [unfolded Inl] k2' [unfolded Inl] show ?thesis
        by (simp add: classify_chunks.simps [of cl texts])
    next
      case (Inr rs1)
      from "1.IH" [OF False k1 [symmetric] Inr, of d2]
      have "fst (classify_chunks cl (drop BATCH_SIZE texts) d1) =
            fst (classify_chunks cl (drop BATCH_SIZE texts) d2)" .
      with False k1 [unfolded Inr] k2' [unfolded Inr] show ?thesis
        by (cases "classify_chunks cl (drop BATCH_SIZE texts) d1";
            cases "classify_chunks cl (drop BATCH_SIZE texts) d2")
           (auto simp: classify_chunks.simps [of cl texts] split: sum.splits)
    qed
  qed
qed

lemma classify_batch_ignores_cache:
  "fst (classify_batch cl texts c1) = fst (classify_batch cl texts c2)"
  using classify_chunks_ignores_cache [of cl texts c1 c2]
  by (cases "classify_chunks cl texts c1"; cases "classify_chunks cl texts c2")
     (auto simp: classify_batch_def split: sum.splits)

lemma infer_intent_InrD:
  assumes "infer_intent cl s = Inr r"
  shows "\<exists>enc probs conf idx.
           transform (tokenize_text cl) s = Inr enc \<and>
           intent_model cl [(input_ids enc, attention_mask enc)] = Inr [probs] \<and>
           top_class probs = Some (conf, idx) \<and> idx < length INTENT_LABELS"
  using assms
  by (auto simp: infer_intent_def split: sum.splits list.splits option.splits if_splits)

lemma transform_width:
  "padded_to width tok \<Longrightarrow> transform tok s = Inr enc \<Longrightarrow>
   length (input_ids enc) = width \<and> length (attention_mask enc) = width"
  by (auto simp: padded_to_def transform_def split: if_splits sum.splits)

lemma transform_all_total:
  "\<forall>t \<in> set ts. \<exists>enc. transform tok t = Inr enc \<Longrightarrow> \<exists>encs. transform_all tok ts = Inr encs"
  by (induction ts) auto

lemma batch_transform_total:
  assumes "ts \<noteq> []" and "padded_to width tok"
    and "\<forall>t \<in> set ts. \<exists>enc. transform tok t = Inr enc"
  shows "\<exists>rows. batch_transform tok ts = Inr rows"
proof -
  from transform_all_total [OF assms(3)] obtain encs where e: "transform_all tok ts = Inr encs"
    by blast
  have w: "length (input_ids enc) = width \<and> length (attention_mask enc) = width"
    if "enc \<in> set encs" for enc
  proof -
    from that obtain j where "j < length encs" "encs ! j = enc"
      by (auto simp: in_set_conv_nth)
    with transform_all_list_all2 [OF e] have "transform tok (ts ! j) = Inr enc"
      by (auto simp: list_all2_conv_all_nth)
    from transform_width [OF assms(2) this] show ?thesis .
  qed
  from transform_all_list_all2 [OF e] assms(1) have ne: "encs \<noteq> []"
    by auto
  have "vstack (map input_ids encs) = Inr (map input_ids encs)"
    using w ne by (auto simp: vstack_def hd_map)
  moreover have "vstack (map attention_mask encs) = Inr (map attention_mask encs)"
    using w ne by (auto simp: vstack_def hd_map)
  ultimately show ?thesis
    using e assms(1) by (simp add: batch_transform_def)
qed

lemma those_map_total:
  "\<forall>x \<in> set xs. \<exists>y. f x = Some y \<Longrightarrow> \<exists>ys. those (map f xs) = Some ys"
  by (induction xs) auto

lemma store_results_total:
  "\<forall>item \<in> set items. snd (fst item) < length INTENT_LABELS \<Longrightarrow>
   \<exists>rs. fst (store_results cl items cache) = Inr rs"
proof (induction items arbitrary: cache)
  case Nil
  then show ?case by simp
next
  case (Cons item items)
  obtain conf pred_idx t where item: "item = ((conf, pred_idx), t)"
    by (metis surj_pair)
  define d where "d = cache(hash cl t \<mapsto> gate_batch cl conf (INTENT_LABELS ! pred_idx))"
  from Cons.prems Cons.IH [of d] obtain rs where "fst (store_results cl items d) = Inr rs"
    by auto
  moreover from Cons.prems have "pred_idx < length INTENT_LABELS"
    by (simp add: item)
  ultimately show ?case
    unfolding item d_def
    by (cases "store_results cl items
                 (cache(hash cl t \<mapsto> gate_batch cl conf (INTENT_LABELS ! pred_idx)))")
       (simp add: Let_def)
qed

text \<open>
  A sub-batch of texts that are each classified by inference alone is classified as
  a whole.
\<close>

lemma classify_chunk_total:
  assumes pad: "padded_to width (tokenize_text cl)"
    and acc: "accepts_batches (intent_model cl)"
    and ri: "row_independent (intent_model cl)"
    and ne: "chunk \<noteq> []"
    and ok: "\<forall>t \<in> set chunk. \<exists>r. infer_intent cl t = Inr r"
  shows "\<exists>rs. fst (classify_chunk cl chunk cache) = Inr rs"
proof -
  have tr: "\<forall>t \<in> set chunk. \<exists>enc. transform (tokenize_text cl) t = Inr enc"
    using ok by (blast dest: infer_intent_InrD)
  from batch_transform_total [OF ne pad tr] obtain rows where
    bt: "batch_transform (tokenize_text cl) chunk = Inr rows"
    by blast
  note rows = batch_transform_rows [OF bt]
  have len_rows: "length rows = length chunk"
    using rows by (simp add: list_all2_lengthD)
  have one: "\<exists>probs conf idx. intent_model cl [rows ! j] = Inr [probs] \<and>
               top_class probs = Some (conf, idx) \<and> idx < length INTENT_LABELS"
    if j: "j < length chunk" for j
  proof -
    from rows j obtain enc where enc: "transform (tokenize_text cl) (chunk ! j) = Inr enc"
      "rows ! j = (input_ids enc, attention_mask enc)"
      by (auto simp: list_all2_conv_all_nth)
    from ok nth_mem [OF j] obtain r where "infer_intent cl (chunk ! j) = Inr r"
      by blast
    from infer_intent_InrD [OF this] enc show ?thesis
      by auto
  qed
  have "rows \<noteq> []"
    using ne len_rows by auto
  moreover have "\<forall>row \<in> set rows. \<exists>p. intent_model cl [row] = Inr [p]"
  proof
    fix row assume "row \<in> set rows"
    then obtain j where "j < length rows" "rows ! j = row"
      by (auto simp: in_set_conv_nth)
    with one [of j] len_rows show "\<exists>p. intent_model cl [row] = Inr [p]"
      by auto
  qed
  ultimately obtain probs where im: "intent_model cl rows = Inr probs"
    using acc unfolding accepts_batches_def by blast
  from ri im have len_probs: "length probs = length rows"
    and single: "\<And>j. j < length rows \<Longrightarrow> intent_model cl [rows ! j] = Inr [probs ! j]"
    by (auto simp: row_independent_def)
  have top: "\<exists>conf idx. top_class (probs ! j) = Some (conf, idx) \<and> idx < length INTENT_LABELS"
    if j: "j < length chunk" for j
    using one [OF j] single [of j] j len_rows by auto
  have "\<forall>p \<in> set probs. \<exists>y. top_class p = Some y"
  proof
    fix p assume "p \<in> set probs"
    then obtain j where "j < length probs" "probs ! j = p"
      by (auto simp: in_set_conv_nth)
    with top [of j] len_probs len_rows show "\<exists>y. top_class p = Some y"
      by auto
  qed
  from those_map_total [OF this] obtain tops where
    th: "those (map top_class probs) = Some tops"
    by blast
  from those_Some_map [OF th] have tops: "map top_class probs = map Some tops" .
  then have len_tops: "length tops = length probs"
    by (metis length_map)
  have "\<forall>item \<in> set (zip tops chunk). snd (fst item) < length INTENT_LABELS"
  proof
    fix item assume "item \<in> set (zip tops chunk)"
    then obtain j where j: "j < length chunk" "item = (tops ! j, chunk ! j)"
      by (auto simp: in_set_zip)
    from tops j len_rows len_probs len_tops have "top_class (probs ! j) = Some (tops ! j)"
      by (metis nth_map)
    with top [OF j(1)] j(2) show "snd (fst item) < length INTENT_LABELS"
      by auto
  qed
  from store_results_total [OF this, of cl cache] bt im th show ?thesis
    by (simp add: classify_chunk_def)
qed

lemma classify_chunks_total:
  "padded_to width (tokenize_text cl) \<Longrightarrow> accepts_batches (intent_model cl) \<Longrightarrow>
   row_independent (intent_model cl) \<Longrightarrow>
   \<forall>t \<in> set texts. \<exists>r. infer_intent cl t = Inr r \<Longrightarrow>
   \<exists>rs. fst (classify_chunks cl texts cache) = Inr rs"
proof (induction cl texts cache rule: classify_chunks.induct)
  case (1 cl texts cache)
  show ?case
  proof (cases "texts = []")
    case True
    then show ?thesis by (simp add: classify_chunks.simps)
  next
    case False
    then have ne: "take BATCH_SIZE texts \<noteq> []"
      by (simp add: BATCH_SIZE_def)
    have a: "\<forall>t \<in> set (take BATCH_SIZE texts). \<exists>r. infer_intent cl t = Inr r"
      using "1.prems"(4) by (meson in_set_takeD)
    have b: "\<forall>t \<in> set (drop BATCH_SIZE texts). \<exists>r. infer_intent cl t = Inr r"
      using "1.prems"(4) by (meson in_set_dropD)
    obtain o1 d1 where k: "classify_chunk cl (take BATCH_SIZE texts) cache = (o1, d1)"
      by (cases "classify_chunk cl (take BATCH_SIZE texts) cache")
    from classify_chunk_total [OF "1.prems"(1,2,3) ne a, of cache] k
    obtain rs1 where o1: "o1 = Inr rs1" by auto
    from "1.IH" [OF False k [symmetric] o1 "1.prems"(1,2,3) b]
    obtain rs2 where "fst (classify_chunks cl (drop BATCH_SIZE texts) d1) = Inr rs2"
      by blast
    with False k o1 show ?thesis
      by (cases "classify_chunks cl (drop BATCH_SIZE texts) d1")
         (simp add: classify_chunks.simps [of cl texts])
  qed
qed

lemma classify_batch_total:
  assumes "padded_to width (tokenize_text cl)" and "accepts_batches (intent_model cl)"
    and "row_independent (intent_model cl)"
    and "\<forall>t \<in> set texts. \<exists>r. infer_intent cl t = Inr r"
  shows "\<exists>rs. fst (classify_batch cl texts cache) = Inr rs"
  using classify_chunks_total [OF assms, of cache]
  by (cases "classify_chunks cl texts cache") (auto simp: classify_batch_def)

text \<open>With a consistent cache a single classification returns exactly when inference does.\<close>

lemma classify_intent_returns_iff:
  assumes "cache_consistent cl cache"
  shows "fst (classify_intent cl s cache) = Inr r \<longleftrightarrow> infer_intent cl s = Inr r"
  using assms
  by (auto simp: classify_intent_def cache_consistent_def Let_def
           split: option.splits sum.splits)

lemma batch_results_are_single_results:
  assumes "row_independent (intent_model cl)" and "cache_consistent cl cache"
    and "fst (classify_batch cl texts cache) = Inr results" and "i < length texts"
  shows "length results = length texts \<and>
         fst (classify_intent cl (texts ! i) cache) = Inr (results ! i)"
proof -
  from assms(4) have ne: "texts \<noteq> []" by auto
  with assms(3) obtain cache' where "classify_chunks cl texts cache = (Inr results, cache')"
    by (cases "classify_chunks cl texts cache")
       (auto simp: classify_batch_def split: sum.splits)
  from classify_chunks_infer [OF assms(1) this]
  have all: "list_all2 (\<lambda>t r. infer_intent cl t = Inr r) texts results" .
  then have len: "length results = length texts"
    by (simp add: list_all2_lengthD)
  from all assms(4) have "infer_intent cl (texts ! i) = Inr (results ! i)"
    by (simp add: list_all2_conv_all_nth)
  with classify_intent_consistent [OF assms(2), of "texts ! i"] len show ?thesis
    by simp
qed

text \<open>
  C8, as amended. For every list of texts each of which single-item \<open>classify_intent\<close>
  returns a result for, \<open>classify_batch\<close> returns one result per text, and result \<open>i\<close>
  is the result of single-item \<open>classify_intent\<close> on \<open>texts[i]\<close> from the same cache,
  a cached result included. This holds when the tokenizer pads every text to one
  width, the model scores a batch whenever it scores each row alone and gives each
  row the scores it gives it alone, and the cache holds results of earlier
  classifications.
\<close>

theorem batch_matches_single:
  assumes "padded_to width (tokenize_text cl)" and "accepts_batches (intent_model cl)"
    and "row_independent (intent_model cl)" and "cache_consistent cl cache"
    and "\<forall>t \<in> set texts. \<exists>r. fst (classify_intent cl t cache) = Inr r"
  shows "\<exists>results. fst (classify_batch cl texts cache) = Inr results \<and>
           length results = length texts \<and>
           (\<forall>i<length texts. fst (classify_intent cl (texts ! i) cache) = Inr (results ! i))"
proof -
  from assms(5) have "\<forall>t \<in> set texts. \<exists>r. infer_intent cl t = Inr r"
    by (simp add: classify_intent_returns_iff [OF assms(4)])
  from classify_batch_total [OF assms(1,2,3) this, of cache] obtain results where
    r: "fst (classify_batch cl texts cache) = Inr results"
    by blast
  have "fst (classify_intent cl (texts ! i) cache) = Inr (results ! i)"
    if "i < length texts" for i
    using batch_results_are_single_results [OF assms(3,4) r that] by simp
  moreover have "length results = length texts"
  proof (cases "texts = []")
    case True
    with r show ?thesis by (simp add: classify_batch_def)
  next
    case False
    then have "0 < length texts" by simp
    from batch_results_are_single_results [OF assms(3,4) r this] show ?thesis by simp
  qed
  ultimately show ?thesis
    using r by blast
qed

lemma example_padded: "padded_to 3 (tokenize_text example_classifier)"
  by (auto simp: padded_to_def example_classifier_def)

lemma example_accepts_batches: "accepts_batches (intent_model example_classifier)"
  by (simp add: accepts_batches_def example_classifier_def)

lemma example_single_results:
  "fst (classify_intent example_classifier ''hello'' warm_cache) = Inr confident_result"
  "fst (classify_intent example_classifier ''hi'' warm_cache) = Inr unsure_result"
  by (simp_all add: classify_intent_def warm_cache_eq example_hash example_infer)

theorem batch_matches_single_witness:
  "padded_to 3 (tokenize_text example_classifier) \<and>
   accepts_batches (intent_model example_classifier) \<and>
   row_independent (intent_model example_classifier) \<and>
   cache_consistent example_classifier warm_cache \<and>
   fst (classify_intent example_classifier ''hello'' warm_cache) = Inr confident_result \<and>
   fst (classify_intent example_classifier ''hi'' warm_cache) = Inr unsure_result \<and>
   fst (classify_batch example_classifier [''hello'', ''hi''] warm_cache) =
     Inr [confident_result, unsure_result]"
proof -
  have s: "\<forall>t \<in> set [''hello'', ''hi''].
             \<exists>r. fst (classify_intent example_classifier t warm_cache) = Inr r"
    using example_single_results by simp
  from batch_matches_single [OF example_padded example_accepts_batches
      example_row_independent warm_cache_consistent s]
  obtain results where r:
    "fst (classify_batch example_classifier [''hello'', ''hi''] warm_cache) = Inr results"
    "length results = length [''hello'', ''hi'']"
    "\<forall>i<length [''hello'', ''hi'']. fst (classify_intent example_classifier
        ([''hello'', ''hi''] ! i) warm_cache) = Inr (results ! i)"
    by blast
  from r(3) [rule_format, of 0] r(3) [rule_format, of 1] example_single_results
  have "results ! 0 = confident_result" "results ! 1 = unsure_result"
    by simp_all
  with r(2) have "results = [confident_result, unsure_result]"
    by (cases results; cases "tl results") auto
  with r(1) example_padded example_accepts_batches example_row_independent
    warm_cache_consistent example_single_results
  show ?thesis by simp
qed

text \<open>
  C8, as stated, fails: for the batch \<open>["hello", ""]\<close> single-item classification of
  the first text returns a result, while \<open>classify_batch\<close> raises for the whole batch
  because the second text is refused by the preprocessor.
\<close>

theorem batch_fails_as_a_whole:
  "fst (classify_intent example_classifier ([''hello'', ''''] ! 0) Map.empty) =
     Inr confident_result \<and>
   fst (classify_batch example_classifier [''hello'', ''''] Map.empty) =
     Inl (RuntimeError ''Batch classification failed'')"
  by code_simp

text \<open>
  With an entry that is not the result of an earlier classification (here: stored
  under the hash of \<open>hi\<close>), single-item classification returns the entry and the
  batch path recomputes.
\<close>

lemma stale_entry_returned_by_single_only:
  "fst (classify_intent example_classifier ''hi'' [2 \<mapsto> confident_result]) =
     Inr confident_result \<and>
   fst (classify_batch example_classifier [''hi''] [2 \<mapsto> confident_result]) =
     Inr [unsure_result]"
  by code_simp

section \<open>Properties of the entity extractor\<close>

lemma make_entity_text_at_position: "text_at_position s (make_entity s idx p t)"
  by (simp add: text_at_position_def make_entity_def)

lemma scan_tokens_text:
  "scan_tokens ex s idx items = Inr es \<Longrightarrow> \<forall>e \<in> set es. text_at_position s e"
proof (induction items arbitrary: idx es)
  case Nil
  then show ?case by simp
next
  case (Cons item items)
  obtain probs m where item: "item = (probs, m)"
    by (cases item)
  from Cons.prems Cons.IH show ?case
    unfolding item
    by (auto simp: make_entity_text_at_position split: if_splits option.splits sum.splits)
qed

lemma scan_tokens_batch_text:
  "scan_tokens_batch ex s mask_row idx rows = Inr es \<Longrightarrow> \<forall>e \<in> set es. text_at_position s e"
proof (induction rows arbitrary: idx es)
  case Nil
  then show ?case by simp
next
  case (Cons probs rows)
  from Cons.prems Cons.IH show ?case
    by (auto simp: make_entity_text_at_position split: if_splits option.splits sum.splits)
qed

lemma extract_texts_text:
  "extract_texts ex pb bp idx ts = Inr ess \<Longrightarrow>
   list_all2 (\<lambda>t es. \<forall>e \<in> set es. text_at_position t e) ts ess"
proof (induction ts arbitrary: idx ess)
  case Nil
  then show ?case by simp
next
  case (Cons t ts)
  from Cons.prems obtain row es ess' where
    "scan_tokens_batch ex t row 0 (bp ! idx) = Inr es"
    "extract_texts ex pb bp (Suc idx) ts = Inr ess'" "ess = es # ess'"
    by (auto split: if_splits sum.splits)
  with Cons.IH scan_tokens_batch_text show ?case
    by auto
qed

lemma extract_chunk_text:
  "extract_chunk ex chunk = Inr ess \<Longrightarrow>
   list_all2 (\<lambda>t es. \<forall>e \<in> set es. text_at_position t e) chunk ess"
  by (auto simp: extract_chunk_def split: sum.splits dest: extract_texts_text)

lemma extract_chunks_text:
  "extract_chunks ex step ts = Inr ess \<Longrightarrow>
   list_all2 (\<lambda>t es. \<forall>e \<in> set es. text_at_position t e) ts ess"
proof (induction ex step ts arbitrary: ess rule: extract_chunks.induct)
  case (1 ex step ts)
  from "1.prems" have step: "step \<noteq> 0"
    by (subst (asm) extract_chunks.simps) (simp split: if_splits)
  show ?case
  proof (cases "ts = []")
    case True
    with "1.prems" step show ?thesis
      by (simp add: extract_chunks.simps)
  next
    case False
    with "1.prems" step obtain ess1 ess2 where
      c1: "extract_chunk ex (take step ts) = Inr ess1"
      and c2: "extract_chunks ex step (drop step ts) = Inr ess2"
      and ess: "ess = ess1 @ ess2"
      by (subst (asm) extract_chunks.simps) (auto split: sum.splits)
    from list_all2_appendI [OF extract_chunk_text [OF c1] "1.IH" [OF step False c1 c2]] ess
    show ?thesis by simp
  qed
qed

lemma extract_batch_text:
  "extract_batch ex ts = Inr ess \<Longrightarrow>
   list_all2 (\<lambda>t es. \<forall>e \<in> set es. text_at_position t e) ts ess"
  by (auto simp: extract_batch_def split: if_splits sum.splits dest: extract_chunks_text)

lemma extract_entities_text:
  "fst (extract_entities ex s pm) = Inr es \<Longrightarrow> \<forall>e \<in> set es. text_at_position s e"
proof -
  assume "fst (extract_entities ex s pm) = Inr es"
  then have "extract_body ex s = Inr es"
    by (auto simp: extract_entities_def split: if_splits sum.splits)
  then obtain items where "scan_tokens ex s 0 items = Inr es"
    by (auto simp: extract_body_def split: sum.splits list.splits)
  from scan_tokens_text [OF this] show ?thesis .
qed

text \<open>The reported text never has more than one character.\<close>

lemma entity_text_at_most_one_character:
  "fst (extract_entities ex s pm) = Inr es \<Longrightarrow> e \<in> set es \<Longrightarrow> length (e_text e) \<le> 1"
  by (auto dest!: extract_entities_text simp: text_at_position_def)

text \<open>
  What the code does in general: every reported entity carries the slice
  \<open>text[position:position + 1]\<close> of the raw input text, in \<open>extract_entities\<close> and,
  for list \<open>i\<close> and \<open>texts[i]\<close>, in \<open>extract_batch\<close>.
\<close>

lemma entity_text_slice:
  "(fst (extract_entities ex s pm) = Inr es \<longrightarrow>
      (\<forall>e \<in> set es. e_text e = take 1 (drop (e_position e) s))) \<and>
   (extract_batch ex ts = Inr ess \<longrightarrow>
      length ess = length ts \<and>
      (\<forall>i<length ts. \<forall>e \<in> set (ess ! i). e_text e = take 1 (drop (e_position e) (ts ! i))))"
proof (intro conjI impI)
  assume "fst (extract_entities ex s pm) = Inr es"
  from extract_entities_text [OF this]
  show "\<forall>e \<in> set es. e_text e = take 1 (drop (e_position e) s)"
    by (simp add: text_at_position_def)
next
  assume b: "extract_batch ex ts = Inr ess"
  from extract_batch_text [OF b] show "length ess = length ts"
    by (simp add: list_all2_lengthD)
  from extract_batch_text [OF b]
  show "\<forall>i<length ts. \<forall>e \<in> set (ess ! i). e_text e = take 1 (drop (e_position e) (ts ! i))"
    by (simp add: list_all2_conv_all_nth text_at_position_def)
qed

lemma example_extract_batch:
  "extract_batch example_extractor [example_text, ''hi''] =
     Inr [example_found example_text, example_found ''hi'']"
  by code_simp

text \<open>
  C7. For the text \<open>create a sales agent for zoho crm\<close> and a model that is confident
  at the token positions 2 and 5, \<open>extract_entities\<close> reports as text the single
  characters at the offsets 2 and 5 of the raw text, \<open>e\<close> and \<open>e\<close>: the token position
  is used as a character offset, so the text is not the part of the input that the
  token at that position stands for.
\<close>

theorem entity_text_is_one_raw_character:
  "fst (extract_entities example_extractor ''create a sales agent for zoho crm''
          \<lparr>processed_texts = 0, successful_extractions = 0\<rparr>) =
     Inr [\<lparr>e_type = Some ''AGENT_NAME'', e_confidence = Some (19 / 20), e_position = 2,
           e_text = ''e''\<rparr>,
          \<lparr>e_type = Some ''INTEGRATION_TYPE'', e_confidence = Some (49 / 50),
           e_position = 5, e_text = ''e''\<rparr>]"
  by code_simp

end
